theory Spec2Isabelle
  imports Complex_Main "HOL-Library.Word"
begin

section \<open>Numbers\<close>

text \<open>
  The sources compute with C++ \<open>double\<close>. A finite double is modelled by the real number
  it stands for and arithmetic on finite doubles is exact real arithmetic (no rounding, no
  overflow, \<open>M_PI\<close> is \<open>pi\<close>). The non-finite results that IEEE 754 gives for a division by
  zero are kept apart in \<open>dbl\<close>, for the variables of the planner that can hold them.
\<close>

datatype dbl = Fin real | PInf | NInf | NaN

text \<open>\<open>a / b\<close> on two finite doubles; a zero divisor is taken as \<open>+0.0\<close>.\<close>

definition ddiv :: "real \<Rightarrow> real \<Rightarrow> dbl" where
  "ddiv a b =
     (if b \<noteq> 0 then Fin (a / b)
      else if 0 < a then PInf
      else if a < 0 then NInf
      else NaN)"

text \<open>
  The vision reading is a \<open>float\<close>. A finite reading is modelled by the real number it
  stands for, \<open>Flt 0\<close> being \<open>+0.0\<close>; the negative zero is kept apart, since as a divisor
  it turns the sign of the infinity. \<open>times14\<close> is the product \<open>cone * 1.4\<close>, which keeps
  the sign of a zero, and \<open>ddivf\<close> the quotient of a finite double by it.
\<close>

datatype float32 = Flt real | MinusZero

fun times14 :: "float32 \<Rightarrow> float32" where
  "times14 (Flt c) = Flt (c * (14 / 10))"
| "times14 MinusZero = MinusZero"

fun ddivf :: "real \<Rightarrow> float32 \<Rightarrow> dbl" where
  "ddivf a (Flt b) = ddiv a b"
| "ddivf a MinusZero = (if 0 < a then NInf else if a < 0 then PInf else NaN)"

text \<open>\<open>a / b\<close> with a finite dividend and any divisor.\<close>

fun ddiv_by :: "real \<Rightarrow> dbl \<Rightarrow> dbl" where
  "ddiv_by a (Fin b) = ddiv a b"
| "ddiv_by a PInf = Fin 0"
| "ddiv_by a NInf = Fin 0"
| "ddiv_by a NaN = NaN"

text \<open>\<open>a * b\<close> with a finite left factor.\<close>

fun dmul :: "real \<Rightarrow> dbl \<Rightarrow> dbl" where
  "dmul a (Fin b) = Fin (a * b)"
| "dmul a PInf = (if 0 < a then PInf else if a < 0 then NInf else NaN)"
| "dmul a NInf = (if 0 < a then NInf else if a < 0 then PInf else NaN)"
| "dmul a NaN = NaN"

text \<open>\<open>a < b\<close>: every comparison with a NaN is false.\<close>

fun dlt :: "dbl \<Rightarrow> dbl \<Rightarrow> bool" where
  "dlt (Fin a) (Fin b) = (a < b)"
| "dlt NaN _ = False"
| "dlt _ NaN = False"
| "dlt NInf NInf = False"
| "dlt NInf _ = True"
| "dlt _ NInf = False"
| "dlt PInf _ = False"
| "dlt (Fin a) PInf = True"

text \<open>\<open>std::min(a, b)\<close> is \<open>(b < a) ? b : a\<close> and \<open>std::max(a, b)\<close> is \<open>(a < b) ? b : a\<close>.\<close>

definition dmin :: "dbl \<Rightarrow> dbl \<Rightarrow> dbl" where
  "dmin a b = (if dlt b a then b else a)"

definition dmax :: "dbl \<Rightarrow> dbl \<Rightarrow> dbl" where
  "dmax a b = (if dlt a b then b else a)"

fun dabs :: "dbl \<Rightarrow> dbl" where
  "dabs (Fin a) = Fin \<bar>a\<bar>"
| "dabs PInf = PInf"
| "dabs NInf = PInf"
| "dabs NaN = NaN"

text \<open>\<open>a != 0.0\<close>.\<close>

fun dnonzero :: "dbl \<Rightarrow> bool" where
  "dnonzero (Fin a) = (a \<noteq> 0)"
| "dnonzero _ = True"

text \<open>C's \<open>round\<close>: to the nearest integer, halfway cases away from zero.\<close>

definition c_round :: "real \<Rightarrow> int" where
  "c_round v = (if 0 \<le> v then \<lfloor>v + 1 / 2\<rfloor> else \<lceil>v - 1 / 2\<rceil>)"

text \<open>\<open>hypot\<close>.\<close>

definition hypot :: "real \<Rightarrow> real \<Rightarrow> real" where
  "hypot a b = sqrt (a * a + b * b)"

text \<open>\<open>atan2(y, x)\<close>, with \<open>atan2(0, 0) = 0\<close>.\<close>

definition atan2 :: "real \<Rightarrow> real \<Rightarrow> real" where
  "atan2 b a =
     (if 0 < a then arctan (b / a)
      else if a < 0 then (if 0 \<le> b then arctan (b / a) + pi else arctan (b / a) - pi)
      else if 0 < b then pi / 2
      else if b < 0 then - (pi / 2)
      else 0)"

section \<open>The planner: positions and the obstacle map\<close>

record loc =
  loc_x :: real
  loc_y :: real
  loc_pose :: real

definition loc0 :: loc where
  "loc0 = \<lparr>loc_x = 0, loc_y = 0, loc_pose = 0\<rparr>"

definition MAP_RES :: real where
  "MAP_RES = 1 / 10"

definition MAP_SIZE :: int where
  "MAP_SIZE = 5000"

text \<open>
  \<open>map_type\<close> is \<open>int8_t\<close>; a value is read as a signed number with \<open>sint\<close>. The map is the
  array \<open>map_data\<close>, a store from the index \<open>i * MAP_SIZE + j\<close> to the cell.
\<close>

type_synonym map_type = "8 word"

type_synonym grid = "int \<Rightarrow> map_type"

definition cell_of :: "real \<Rightarrow> int" where
  "cell_of v = c_round (v / MAP_RES) + MAP_SIZE div 2"

definition in_map :: "int \<Rightarrow> int \<Rightarrow> bool" where
  "in_map i j = (0 \<le> i \<and> i < MAP_SIZE \<and> 0 \<le> j \<and> j < MAP_SIZE)"

definition map_get :: "grid \<Rightarrow> real \<Rightarrow> real \<Rightarrow> map_type" where
  "map_get g px py =
     (let i = cell_of px; j = cell_of py
      in if in_map i j then g (i * MAP_SIZE + j) else 0)"

definition map_set :: "grid \<Rightarrow> real \<Rightarrow> real \<Rightarrow> map_type \<Rightarrow> grid" where
  "map_set g px py v =
     (let i = cell_of px; j = cell_of py
      in if in_map i j then g(i * MAP_SIZE + j := v) else g)"

text \<open>The map as \<open>main\<close> leaves it: every cell 0.\<close>

definition map_init :: grid where
  "map_init = (\<lambda>k. 0)"

definition test_collision :: "grid \<Rightarrow> loc \<Rightarrow> bool" where
  "test_collision g here = (map_get g (loc_x here) (loc_y here) \<noteq> 0)"

section \<open>Arcs\<close>

text \<open>The point of an arc at distance \<open>ds\<close>; the pose of a sample \<open>loc h\<close> stays 0.\<close>

definition arc_point :: "real \<Rightarrow> real \<Rightarrow> real \<Rightarrow> real \<Rightarrow> real \<Rightarrow> loc" where
  "arc_point r theta center_x center_y ds =
     \<lparr>loc_x = r * cos (theta + ds / r) + center_x,
      loc_y = r * sin (theta + ds / r) + center_y,
      loc_pose = 0\<rparr>"

definition line_point :: "loc \<Rightarrow> real \<Rightarrow> loc" where
  "line_point start ds =
     \<lparr>loc_x = loc_x start + ds * cos (loc_pose start),
      loc_y = loc_y start + ds * sin (loc_pose start),
      loc_pose = 0\<rparr>"

text \<open>
  The loops \<open>for (double dist = 0; dist < l; dist += MAP_RES/2.0)\<close> of \<open>test_arc\<close>; the
  loop returns false at the first collision.
\<close>

function test_arc_loop ::
  "grid \<Rightarrow> real \<Rightarrow> real \<Rightarrow> real \<Rightarrow> real \<Rightarrow> real \<Rightarrow> real \<Rightarrow> bool" where
  "test_arc_loop g r theta center_x center_y l ds =
     (if ds < l then
        (if test_collision g (arc_point r theta center_x center_y ds) then False
         else test_arc_loop g r theta center_x center_y l (ds + MAP_RES / 2))
      else True)"
  by pat_completeness auto
termination
  by (relation "measure (\<lambda>(g, r, theta, cx, cy, l, ds). nat \<lceil>(l - ds) * 20\<rceil>)")
     (auto simp: MAP_RES_def algebra_simps, linarith)

function test_line_loop :: "grid \<Rightarrow> loc \<Rightarrow> real \<Rightarrow> real \<Rightarrow> bool" where
  "test_line_loop g start l ds =
     (if ds < l then
        (if test_collision g (line_point start ds) then False
         else test_line_loop g start l (ds + MAP_RES / 2))
      else True)"
  by pat_completeness auto
termination
  by (relation "measure (\<lambda>(g, start, l, ds). nat \<lceil>(l - ds) * 20\<rceil>)")
     (auto simp: MAP_RES_def algebra_simps, linarith)

definition test_arc :: "grid \<Rightarrow> loc \<Rightarrow> real \<Rightarrow> real \<Rightarrow> bool" where
  "test_arc g start r l =
     (if r \<noteq> 0 then
        (let theta = loc_pose start - pi / 2;
             center_x = loc_x start + r * cos (loc_pose start + pi / 2);
             center_y = loc_y start + r * sin (loc_pose start + pi / 2)
         in test_arc_loop g r theta center_x center_y l 0)
      else test_line_loop g start l 0)"

text \<open>
  The same two loops, recording every point \<open>h\<close> handed to \<open>test_collision\<close>, in the order
  of the calls. The point that collides is the last one recorded.
\<close>

function arc_visit_loop ::
  "grid \<Rightarrow> real \<Rightarrow> real \<Rightarrow> real \<Rightarrow> real \<Rightarrow> real \<Rightarrow> real \<Rightarrow> loc list" where
  "arc_visit_loop g r theta center_x center_y l ds =
     (if ds < l then
        (if test_collision g (arc_point r theta center_x center_y ds)
         then [arc_point r theta center_x center_y ds]
         else arc_point r theta center_x center_y ds
                # arc_visit_loop g r theta center_x center_y l (ds + MAP_RES / 2))
      else [])"
  by pat_completeness auto
termination
  by (relation "measure (\<lambda>(g, r, theta, cx, cy, l, ds). nat \<lceil>(l - ds) * 20\<rceil>)")
     (auto simp: MAP_RES_def algebra_simps, linarith)

function line_visit_loop :: "grid \<Rightarrow> loc \<Rightarrow> real \<Rightarrow> real \<Rightarrow> loc list" where
  "line_visit_loop g start l ds =
     (if ds < l then
        (if test_collision g (line_point start ds) then [line_point start ds]
         else line_point start ds # line_visit_loop g start l (ds + MAP_RES / 2))
      else [])"
  by pat_completeness auto
termination
  by (relation "measure (\<lambda>(g, start, l, ds). nat \<lceil>(l - ds) * 20\<rceil>)")
     (auto simp: MAP_RES_def algebra_simps, linarith)

definition test_arc_visited :: "grid \<Rightarrow> loc \<Rightarrow> real \<Rightarrow> real \<Rightarrow> loc list" where
  "test_arc_visited g start r l =
     (if r \<noteq> 0 then
        (let theta = loc_pose start - pi / 2;
             center_x = loc_x start + r * cos (loc_pose start + pi / 2);
             center_y = loc_y start + r * sin (loc_pose start + pi / 2)
         in arc_visit_loop g r theta center_x center_y l 0)
      else line_visit_loop g start l 0)"

text \<open>\<open>nav_msgs::Path\<close>: a frame and the poses, of which the planner fills the position.\<close>

record pose_stamped =
  ps_frame :: string
  ps_x :: real
  ps_y :: real

record nav_path =
  np_frame :: string
  np_poses :: "pose_stamped list"

function arc_path_loop ::
  "string \<Rightarrow> real \<Rightarrow> real \<Rightarrow> real \<Rightarrow> real \<Rightarrow> real \<Rightarrow> real \<Rightarrow> pose_stamped list" where
  "arc_path_loop frame r theta center_x center_y l ds =
     (if ds < l then
        \<lparr>ps_frame = frame,
         ps_x = r * cos (theta + ds / r) + center_x,
         ps_y = r * sin (theta + ds / r) + center_y\<rparr>
          # arc_path_loop frame r theta center_x center_y l (ds + MAP_RES / 2)
      else [])"
  by pat_completeness auto
termination
  by (relation "measure (\<lambda>(frame, r, theta, cx, cy, l, ds). nat \<lceil>(l - ds) * 20\<rceil>)")
     (auto simp: MAP_RES_def algebra_simps, linarith)

function line_path_loop :: "string \<Rightarrow> loc \<Rightarrow> real \<Rightarrow> real \<Rightarrow> pose_stamped list" where
  "line_path_loop frame start l ds =
     (if ds < l then
        \<lparr>ps_frame = frame,
         ps_x = loc_x start + ds * cos (loc_pose start),
         ps_y = loc_y start + ds * sin (loc_pose start)\<rparr>
          # line_path_loop frame start l (ds + MAP_RES / 2)
      else [])"
  by pat_completeness auto
termination
  by (relation "measure (\<lambda>(frame, start, l, ds). nat \<lceil>(l - ds) * 20\<rceil>)")
     (auto simp: MAP_RES_def algebra_simps, linarith)

text \<open>\<open>arcToPath\<close>; \<open>frame\<close> is the global \<open>position_frame\<close>.\<close>

definition arcToPath :: "string \<Rightarrow> loc \<Rightarrow> real \<Rightarrow> real \<Rightarrow> nav_path" where
  "arcToPath frame start r l =
     \<lparr>np_frame = frame,
      np_poses =
        (if r \<noteq> 0 then
           (let theta = loc_pose start - pi / 2;
                center_x = loc_x start + r * cos (loc_pose start + pi / 2);
                center_y = loc_y start + r * sin (loc_pose start + pi / 2)
            in arc_path_loop frame r theta center_x center_y l 0)
         else line_path_loop frame start l 0)\<rparr>"

definition arc_end :: "loc \<Rightarrow> real \<Rightarrow> real \<Rightarrow> loc" where
  "arc_end start r l =
     (if r \<noteq> 0 then
        (let theta = loc_pose start - pi / 2;
             center_x = loc_x start + r * cos (loc_pose start + pi / 2);
             center_y = loc_y start + r * sin (loc_pose start + pi / 2)
         in \<lparr>loc_x = center_x + r * cos (theta + l / r),
             loc_y = center_y + r * sin (theta + l / r),
             loc_pose = theta + l / r\<rparr>)
      else \<lparr>loc_x = loc_x start + l * cos (loc_pose start),
            loc_y = loc_y start + l * sin (loc_pose start),
            loc_pose = loc_pose start\<rparr>)"

text \<open>The macro \<open>dist(a, b)\<close>.\<close>

definition dist_loc :: "loc \<Rightarrow> loc \<Rightarrow> real" where
  "dist_loc a b = hypot (loc_x a - loc_x b) (loc_y a - loc_y b)"

text \<open>
  A path is sampled up to a length that may be a NaN. The loop test \<open>dist < l\<close> is false at
  once for a NaN, for \<open>-inf\<close> and for a length that is not positive, whatever the radius.
  With a positive length the radius is a finite number in every call the planner makes; the
  other cases (a non-finite radius, the length \<open>+inf\<close>) are outside the model and give
  \<open>None\<close>.
\<close>

fun test_arc_d :: "grid \<Rightarrow> loc \<Rightarrow> dbl \<Rightarrow> dbl \<Rightarrow> bool option" where
  "test_arc_d g start r NaN = Some True"
| "test_arc_d g start r NInf = Some True"
| "test_arc_d g start (Fin r) (Fin l) = Some (test_arc g start r l)"
| "test_arc_d g start r (Fin l) = (if l \<le> 0 then Some True else None)"
| "test_arc_d g start r PInf = None"

fun arcToPath_d :: "string \<Rightarrow> loc \<Rightarrow> dbl \<Rightarrow> dbl \<Rightarrow> nav_path option" where
  "arcToPath_d frame start r NaN = Some \<lparr>np_frame = frame, np_poses = []\<rparr>"
| "arcToPath_d frame start r NInf = Some \<lparr>np_frame = frame, np_poses = []\<rparr>"
| "arcToPath_d frame start (Fin r) (Fin l) = Some (arcToPath frame start r l)"
| "arcToPath_d frame start r (Fin l) =
     (if l \<le> 0 then Some \<lparr>np_frame = frame, np_poses = []\<rparr> else None)"
| "arcToPath_d frame start r PInf = None"

section \<open>The planner: state\<close>

text \<open>
  \<open>ros::Time\<close> is a pair of seconds and nanoseconds. The planner clears a timer with
  \<open>planner_timeout.sec = 0\<close>, which leaves the nanoseconds, and tests it with
  \<open>planner_timeout.sec != 0\<close>. Every callback reads the clock once: \<open>now\<close> is
  an argument of the callback.
\<close>

record rostime =
  sec :: int
  nsec :: int

definition toSec :: "rostime \<Rightarrow> real" where
  "toSec t = real_of_int (sec t) + real_of_int (nsec t) / 1000000000"

text \<open>\<open>(a - b).toSec()\<close>.\<close>

definition elapsed :: "rostime \<Rightarrow> rostime \<Rightarrow> real" where
  "elapsed a b = toSec a - toSec b"

definition time0 :: rostime where
  "time0 = \<lparr>sec = 0, nsec = 0\<rparr>"

datatype pstate = BACKING | FORWARD | CONE

record path =
  p_speed :: dbl
  p_radius :: dbl

text \<open>The globals that \<open>reconfigureCb\<close> sets, and \<open>backup_time\<close>.\<close>

record params =
  min_radius :: real
  max_radius :: real
  goal_err :: real
  cone_dist :: real
  max_speed :: real
  min_speed :: real
  planner_lookahead :: real
  max_accel :: real
  backup_time :: real
  backup_dist :: real
  stuck_timeout :: real
  cone_timeout :: real
  cone_speed :: real
  track_cones :: bool

text \<open>The initial values of the source.\<close>

definition default_params :: params where
  "default_params =
     \<lparr>min_radius = 695 / 1000, max_radius = 4, goal_err = 3 / 10, cone_dist = 6,
      max_speed = 3 / 2, min_speed = 1 / 10, planner_lookahead = 4, max_accel = 3 / 10,
      backup_time = 10, backup_dist = 1, stuck_timeout = 2, cone_timeout = 1,
      cone_speed = 4 / 10, track_cones = False\<rparr>"

record point_stamped =
  pt_frame :: string
  pt_stamp :: rostime
  pt_x :: real
  pt_y :: real

record twist =
  linear_x :: dbl
  angular_z :: dbl

text \<open>What the node publishes: on \<open>cmd_vel\<close>, on \<open>path\<close> and on \<open>goal_reached\<close>.\<close>

datatype event = Cmd twist | Path nav_path | Done bool

record planner =
  cfg :: params
  map_data :: grid
  active :: bool
  position_frame :: string
  planner_state :: pstate
  planner_timeout :: rostime
  backup_pose :: loc
  backup_radius :: real
  cone :: float32
  cone_time :: rostime
  bump :: bool
  pattern_center :: loc
  done_time :: rostime
  goal_msg :: point_stamped
  last_loc :: loc
  last_pose :: loc
  published :: "event list"

definition publish :: "event \<Rightarrow> planner \<Rightarrow> planner" where
  "publish e s = s\<lparr>published := published s @ [e]\<rparr>"

text \<open>\<open>planner_timeout.sec = 0\<close>.\<close>

definition clear_timeout :: "planner \<Rightarrow> planner" where
  "clear_timeout s = s\<lparr>planner_timeout := (planner_timeout s)\<lparr>sec := 0\<rparr>\<rparr>"

section \<open>The planner: \<open>plan_path\<close>\<close>

text \<open>The case \<open>BACKING\<close>.\<close>

definition plan_backing :: "rostime \<Rightarrow> planner \<Rightarrow> loc \<Rightarrow> path \<times> planner" where
  "plan_backing now s start =
     (let p = \<lparr>p_speed = Fin (- 2 * min_speed (cfg s)), p_radius = Fin (backup_radius s)\<rparr>;
          s1 = (if backup_time (cfg s) < elapsed now (planner_timeout s)
                then clear_timeout (s\<lparr>planner_state := FORWARD\<rparr>) else s);
          s2 = (if backup_dist (cfg s1) < dist_loc start (backup_pose s1)
                then clear_timeout (s1\<lparr>planner_state := FORWARD\<rparr>) else s1)
      in (p, s2))"

text \<open>The case \<open>CONE\<close>.\<close>

definition plan_cone :: "rostime \<Rightarrow> planner \<Rightarrow> loc \<Rightarrow> path \<times> planner" where
  "plan_cone now s start =
     (let speed = cone_speed (cfg s);
          radius = (if elapsed now (cone_time s) < cone_timeout (cfg s)
                    then ddivf speed (times14 (cone s)) else Fin 2);
          p = \<lparr>p_speed = Fin speed, p_radius = radius\<rparr>;
          (p1, s1) = (if bump s
                      then (\<lparr>p_speed = Fin 0, p_radius = Fin 0\<rparr>,
                            publish (Done True)
                              (s\<lparr>planner_timeout := now, backup_pose := start,
                                 planner_state := BACKING, active := False\<rparr>))
                      else (p, s));
          (p2, s2) = (if toSec (planner_timeout s1) + 60 < toSec now
                      then (\<lparr>p_speed = Fin 0, p_radius = Fin 0\<rparr>,
                            publish (Done False)
                              (s1\<lparr>planner_state := FORWARD, active := False\<rparr>))
                      else (p1, s1))
      in (p2, s2))"

text \<open>The loops \<open>while (alpha > 2.0*M_PI) alpha -= M_PI * 4.0\<close> and its mirror.\<close>

function norm_down :: "real \<Rightarrow> real" where
  "norm_down a = (if 2 * pi < a then norm_down (a - pi * 4) else a)"
  by pat_completeness auto
termination
proof (relation "measure (\<lambda>a. nat \<lceil>a / (4 * pi)\<rceil>)")
  show "wf (measure (\<lambda>a. nat \<lceil>a / (4 * pi)\<rceil>))"
    by simp
next
  fix a :: real
  assume h: "2 * pi < a"
  have "(a - pi * 4) / (4 * pi) = a / (4 * pi) - 1"
    by (simp add: field_simps)
  moreover have "0 < a"
    using h pi_gt_zero by linarith
  then have "0 < a / (4 * pi)"
    by simp
  ultimately show "(a - pi * 4, a) \<in> measure (\<lambda>a. nat \<lceil>a / (4 * pi)\<rceil>)"
    by simp
qed

function norm_up :: "real \<Rightarrow> real" where
  "norm_up a = (if a < - 2 * pi then norm_up (a + pi * 4) else a)"
  by pat_completeness auto
termination
proof (relation "measure (\<lambda>a. nat \<lceil>- (a / (4 * pi))\<rceil>)")
  show "wf (measure (\<lambda>a. nat \<lceil>- (a / (4 * pi))\<rceil>))"
    by simp
next
  fix a :: real
  assume h: "a < - 2 * pi"
  have eq: "- ((a + pi * 4) / (4 * pi)) = - (a / (4 * pi)) - 1"
    by (simp add: field_simps)
  have "a < 0"
    using h pi_gt_zero by linarith
  then have "a / (4 * pi) < 0"
    by (simp add: divide_neg_pos)
  then have "0 < \<lceil>- (a / (4 * pi))\<rceil>"
    by simp
  then show "(a + pi * 4, a) \<in> measure (\<lambda>a. nat \<lceil>- (a / (4 * pi))\<rceil>)"
    unfolding in_measure eq by simp
qed

text \<open>
  The tangent arc through the goal: the angle \<open>alpha\<close>, the radius and the arc length that
  \<open>plan_path\<close> hands to \<open>test_arc\<close>. In the source \<open>sin(alpha)\<close> is \<open>0.0\<close> only for
  \<open>alpha = 0\<close>, where the division gives an infinity or a NaN. At \<open>alpha = \<plusminus>pi\<close> the double
  \<open>sin(alpha)\<close> is tiny and not zero, the dividend \<open>d * sin(beta)\<close> is zero and so is the
  quotient, which is also the value of the real division there.
\<close>

record tangent =
  tg_alpha :: real
  tg_radius :: dbl
  tg_arc_len :: dbl

definition tangent_arc :: "params \<Rightarrow> loc \<Rightarrow> loc \<Rightarrow> real \<Rightarrow> tangent" where
  "tangent_arc c start end' d =
     (let theta = atan2 (loc_y end' - loc_y start) (loc_x end' - loc_x start);
          alpha0 = norm_up (norm_down (2 * (theta - loc_pose start)));
          arc_ang = alpha0;
          alpha1 = (if pi < alpha0 then pi * 2 - alpha0 else alpha0);
          alpha = (if alpha1 < - pi then - pi * 2 - alpha1 else alpha1);
          beta = (pi - \<bar>alpha\<bar>) / 2;
          radius0 = (if alpha = 0 then ddiv (d * sin beta) 0
                     else Fin (d * sin beta / sin alpha));
          radius1 = (if pi < \<bar>arc_ang\<bar>
                     then (if dlt (Fin 0) radius0 then Fin (min_radius c)
                           else Fin (- min_radius c))
                     else radius0);
          arc_len1 = dmul arc_ang radius1;
          (radius2, arc_len2) =
             (if dlt (dabs radius1) (Fin (min_radius c)) then (Fin 0, Fin (min_radius c))
              else (radius1, arc_len1));
          radius3 = dmin radius2 (Fin (max_radius c));
          radius4 = dmax radius3 (Fin (- max_radius c));
          arc_len3 = dmin arc_len2 (Fin (planner_lookahead c))
      in \<lparr>tg_alpha = alpha, tg_radius = radius4, tg_arc_len = arc_len3\<rparr>)"

text \<open>
  The radii tried when the tangent arc is blocked: straight, then \<open>min_radius * i\<close> to the
  left and to the right for \<open>i = 1, 2, 4, 8\<close> (\<open>for (int i=1; i<9; i *= 2)\<close>), each kept
  when \<open>test_arc\<close> passes.
\<close>

definition try_radius :: "grid \<Rightarrow> params \<Rightarrow> loc \<Rightarrow> real \<Rightarrow> real list \<Rightarrow> int \<Rightarrow> real list" where
  "try_radius g c start traverse_dist arcs i =
     (let d = min traverse_dist (min_radius c * real_of_int i * pi / 2);
          arcs1 = (if test_arc g start (min_radius c * real_of_int i) d
                   then arcs @ [min_radius c * real_of_int i] else arcs);
          arcs2 = (if test_arc g start (- min_radius c * real_of_int i) d
                   then arcs1 @ [- min_radius c * real_of_int i] else arcs1)
      in arcs2)"

definition candidate_arcs :: "grid \<Rightarrow> params \<Rightarrow> loc \<Rightarrow> real \<Rightarrow> real list" where
  "candidate_arcs g c start traverse_dist =
     foldl (try_radius g c start traverse_dist)
       (if test_arc g start 0 traverse_dist then [0] else []) [1, 2, 4, 8]"

text \<open>
  The choice among the radii that passed: \<open>best_r\<close> and \<open>min_dist\<close> start from the front
  of the list, and the loop over the list replaces them when an arc ends strictly closer.
\<close>

definition arc_score :: "loc \<Rightarrow> loc \<Rightarrow> real \<Rightarrow> real \<Rightarrow> real" where
  "arc_score start end' traverse_dist r =
     (let l = min traverse_dist (r * pi / 2);
          e = arc_end start r l
      in dist_loc e end')"

definition choose_step :: "loc \<Rightarrow> loc \<Rightarrow> real \<Rightarrow> real \<times> real \<Rightarrow> real \<Rightarrow> real \<times> real" where
  "choose_step start end' traverse_dist bm r =
     (let d = arc_score start end' traverse_dist r
      in if d < snd bm then (r, d) else bm)"

definition choose_arc :: "loc \<Rightarrow> loc \<Rightarrow> real \<Rightarrow> real list \<Rightarrow> real" where
  "choose_arc start end' traverse_dist arcs =
     (let best_r = hd arcs;
          min_dist = arc_score start end' traverse_dist best_r
      in fst (foldl (choose_step start end' traverse_dist) (best_r, min_dist) arcs))"

text \<open>\<open>min(max_speed, max_speed * (2.0 * len / planner_lookahead))\<close>.\<close>

definition speed_for :: "params \<Rightarrow> real \<Rightarrow> dbl" where
  "speed_for c len =
     dmin (Fin (max_speed c)) (dmul (max_speed c) (ddiv (2 * len) (planner_lookahead c)))"

text \<open>The case \<open>FORWARD\<close>; \<open>d\<close> is the distance from \<open>start\<close> to \<open>end\<close>.\<close>

definition plan_forward ::
  "rostime \<Rightarrow> planner \<Rightarrow> loc \<Rightarrow> loc \<Rightarrow> real \<Rightarrow> (path \<times> planner) option" where
  "plan_forward now s start end' d =
     (let c = cfg s in
      if d < goal_err c then
        (let s1 = s\<lparr>active := False\<rparr>;
             s2 = (if 1 / 2 < elapsed now (done_time s1)
                   then publish (Done True) (s1\<lparr>done_time := now\<rparr>) else s1)
         in Some (\<lparr>p_speed = Fin 0, p_radius = Fin 0\<rparr>, s2))
      else
        (let traverse_dist = min d (planner_lookahead c);
             speed0 = speed_for c traverse_dist;
             speed = (if dlt speed0 (Fin (min_speed c)) then Fin (min_speed c) else speed0);
             tg = tangent_arc c start end' d;
             radius = tg_radius tg;
             arc_len = tg_arc_len tg
         in case test_arc_d (map_data s) start radius arc_len of
              None \<Rightarrow> None
            | Some True \<Rightarrow>
                (case arcToPath_d (position_frame s) start radius arc_len of
                   None \<Rightarrow> None
                 | Some pth \<Rightarrow>
                     Some (\<lparr>p_speed = speed, p_radius = radius\<rparr>,
                           clear_timeout (publish (Path pth) s)))
            | Some False \<Rightarrow>
                (let arcs = candidate_arcs (map_data s) c start traverse_dist in
                 if arcs = [] then
                   (let s1 =
                      (if sec (planner_timeout s) \<noteq> 0 then
                         (if stuck_timeout c < elapsed now (planner_timeout s)
                          then s\<lparr>planner_state := BACKING,
                                 backup_radius :=
                                   (if 0 < tg_alpha tg then - min_radius c else min_radius c),
                                 backup_pose := start,
                                 planner_timeout := now\<rparr>
                          else s)
                       else s\<lparr>planner_timeout := now\<rparr>)
                    in Some (\<lparr>p_speed = Fin 0, p_radius = Fin 0\<rparr>, s1))
                 else
                   (let best_r = choose_arc start end' traverse_dist arcs;
                        arc_len0 = \<bar>best_r * pi / 2\<bar>;
                        arc_len1 = (if best_r = 0 then traverse_dist else arc_len0);
                        speed1 = speed_for c arc_len1;
                        pth = arcToPath (position_frame s) start best_r
                                (min traverse_dist arc_len1)
                    in Some (\<lparr>p_speed = speed1, p_radius = Fin best_r\<rparr>,
                             clear_timeout (publish (Path pth) s))))))"

definition plan_path :: "rostime \<Rightarrow> planner \<Rightarrow> loc \<Rightarrow> loc \<Rightarrow> (path \<times> planner) option" where
  "plan_path now s start end' =
     (let d = dist_loc start end';
          s1 = (if track_cones (cfg s) \<and> d < cone_dist (cfg s) \<and> planner_state s = FORWARD
                then s\<lparr>planner_state := CONE, pattern_center := start, planner_timeout := now\<rparr>
                else s)
      in case planner_state s1 of
           BACKING \<Rightarrow> Some (plan_backing now s1 start)
         | CONE \<Rightarrow> Some (plan_cone now s1 start)
         | FORWARD \<Rightarrow> plan_forward now s1 start end' d)"

section \<open>The planner: callbacks\<close>

record odometry =
  od_frame :: string
  od_pose :: loc
  od_linear_x :: real

text \<open>
  The acceleration limit of \<open>positionCallback\<close> on the speed that \<open>plan_path\<close> returns.
\<close>

definition limit_accel :: "params \<Rightarrow> real \<Rightarrow> dbl \<Rightarrow> dbl" where
  "limit_accel c current_speed speed =
     (if dlt (Fin 0) speed then
        (if 0 < current_speed then dmin speed (Fin (current_speed + max_accel c))
         else Fin (max_accel c))
      else if dlt speed (Fin 0) then
        (if current_speed < 0 then dmax speed (Fin (current_speed - max_accel c))
         else Fin (- max_accel c))
      else speed)"

text \<open>\<open>speed / radius\<close> on two doubles.\<close>

fun ddiv2 :: "dbl \<Rightarrow> dbl \<Rightarrow> dbl" where
  "ddiv2 (Fin a) b = ddiv_by a b"
| "ddiv2 NaN b = NaN"
| "ddiv2 a NaN = NaN"
| "ddiv2 PInf (Fin b) = (if 0 \<le> b then PInf else NInf)"
| "ddiv2 NInf (Fin b) = (if 0 \<le> b then NInf else PInf)"
| "ddiv2 a b = NaN"

definition command :: "params \<Rightarrow> real \<Rightarrow> path \<Rightarrow> twist" where
  "command c current_speed p =
     (let radius = p_radius p;
          speed = limit_accel c current_speed (p_speed p)
      in \<lparr>linear_x = speed,
          angular_z = (if dnonzero radius then ddiv2 speed radius else Fin 0)\<rparr>)"

text \<open>
  The transform service of the planner: \<open>tf target msg\<close> is \<open>None\<close> when \<open>canTransform\<close>
  says no, and the transformed point otherwise.
\<close>

type_synonym tf_service = "string \<Rightarrow> point_stamped \<Rightarrow> point_stamped option"

definition goal_loc :: "point_stamped \<Rightarrow> loc" where
  "goal_loc g = \<lparr>loc_x = pt_x g, loc_y = pt_y g, loc_pose = 0\<rparr>"

text \<open>The part of \<open>positionCallback\<close> after the goal is in the frame of the pose.\<close>

definition drive :: "rostime \<Rightarrow> odometry \<Rightarrow> planner \<Rightarrow> planner option" where
  "drive now msg s =
     (let here = od_pose msg; goal = goal_loc (goal_msg s) in
      if active s then
        (case plan_path now s here goal of
           None \<Rightarrow> None
         | Some (p, s1) \<Rightarrow> Some (publish (Cmd (command (cfg s1) (od_linear_x msg) p)) s1))
      else Some (publish (Cmd \<lparr>linear_x = Fin 0, angular_z = Fin 0\<rparr>) s))"

definition positionCallback ::
  "tf_service \<Rightarrow> rostime \<Rightarrow> odometry \<Rightarrow> planner \<Rightarrow> planner option" where
  "positionCallback tf now msg s =
     (let here = od_pose msg;
          s1 = s\<lparr>last_loc := here, last_pose := od_pose msg, position_frame := od_frame msg\<rparr>;
          pose_frame = od_frame msg
      in if pose_frame \<noteq> pt_frame (goal_msg s1) then
           (case tf pose_frame (goal_msg s1) of
              Some tmp_goal \<Rightarrow> drive now msg (s1\<lparr>goal_msg := tmp_goal\<rparr>)
            | None \<Rightarrow> Some s1)
         else drive now msg s1)"

definition goalCallback :: "point_stamped \<Rightarrow> planner \<Rightarrow> planner" where
  "goalCallback msg s = s\<lparr>goal_msg := msg, active := True\<rparr>"

definition bumpCb :: "bool \<Rightarrow> planner \<Rightarrow> planner" where
  "bumpCb msg s = s\<lparr>bump := msg\<rparr>"

definition visionCb :: "rostime \<Rightarrow> float32 \<Rightarrow> planner \<Rightarrow> planner" where
  "visionCb now msg s = s\<lparr>cone_time := now, cone := msg\<rparr>"

text \<open>\<open>reconfigureCb\<close> sets every parameter but \<open>backup_time\<close>.\<close>

definition reconfigureCb :: "params \<Rightarrow> planner \<Rightarrow> planner" where
  "reconfigureCb config s = s\<lparr>cfg := config\<lparr>backup_time := backup_time (cfg s)\<rparr>\<rparr>"

section \<open>The planner: the laser scan and the map\<close>

record laser_scan =
  sc_frame :: string
  sc_stamp :: rostime
  angle_min :: real
  angle_increment :: real
  range_min :: real
  ranges :: "real list"

definition LOCAL_MAP_SIZE :: int where
  "LOCAL_MAP_SIZE = 150"

definition LASER_OFFSET :: real where
  "LASER_OFFSET = 26 / 100"

text \<open>The fractional part that \<open>modf\<close> returns: it has the sign of its argument.\<close>

definition modf_frac :: "real \<Rightarrow> real" where
  "modf_frac v = v - real_of_int (if 0 \<le> v then \<lfloor>v\<rfloor> else \<lceil>v\<rceil>)"

definition local_cell :: "real \<Rightarrow> int" where
  "local_cell v = c_round (v / MAP_RES) + LOCAL_MAP_SIZE div 2"

definition in_local :: "int \<Rightarrow> int \<Rightarrow> bool" where
  "in_local j k = (0 < j \<and> 0 < k \<and> j < LOCAL_MAP_SIZE \<and> k < LOCAL_MAP_SIZE)"

text \<open>
  The local map is an array of \<open>LOCAL_MAP_SIZE * LOCAL_MAP_SIZE\<close> cells set to 0. The
  inflation loop reads up to \<open>LOCAL_MAP_SIZE\<close> cells past its end: \<open>heap\<close> is what the
  memory holds there.
\<close>

definition local_init :: "(int \<Rightarrow> map_type) \<Rightarrow> int \<Rightarrow> map_type" where
  "local_init heap =
     (\<lambda>k. if 0 \<le> k \<and> k < LOCAL_MAP_SIZE * LOCAL_MAP_SIZE then 0 else heap k)"

text \<open>The status codes of a range below \<open>range_min\<close>; \<open>None\<close> is \<open>status = 0\<close>.\<close>

definition decode_range :: "real \<Rightarrow> real \<Rightarrow> real option" where
  "decode_range rmin r =
     (if r < rmin then
        (if r = 0 then Some 22
         else if 55 / 10000 < r \<and> r < 65 / 10000 then Some (57 / 10)
         else if 155 / 10000 < r \<and> r < 165 / 10000 then Some 5
         else None)
      else Some r)"

function ray_loop ::
  "(int \<Rightarrow> map_type) \<Rightarrow> real \<Rightarrow> real \<Rightarrow> real \<Rightarrow> real \<Rightarrow> real \<Rightarrow> int \<Rightarrow> map_type" where
  "ray_loop lm offset_x offset_y theta r d =
     (if d < r then
        (let j = local_cell (offset_x + d * cos theta);
             k = local_cell (offset_y + d * sin theta)
         in if in_local j k
            then ray_loop (lm(j * LOCAL_MAP_SIZE + k := - 1)) offset_x offset_y theta r
                   (d + MAP_RES / 2)
            else lm)
      else lm)"
  by pat_completeness auto
termination
  by (relation "measure (\<lambda>(lm, ox, oy, theta, r, d). nat \<lceil>(r - d) * 20\<rceil>)")
     (auto simp: MAP_RES_def algebra_simps, linarith)

fun trace_beams ::
  "(int \<Rightarrow> map_type) \<Rightarrow> real \<Rightarrow> real \<Rightarrow> real \<Rightarrow> real \<Rightarrow> real \<Rightarrow> real list
     \<Rightarrow> int \<Rightarrow> map_type" where
  "trace_beams lm offset_x offset_y rmin inc theta [] = lm"
| "trace_beams lm offset_x offset_y rmin inc theta (r # rs) =
     trace_beams
       (case decode_range rmin r of
          None \<Rightarrow> lm
        | Some r' \<Rightarrow> ray_loop lm offset_x offset_y theta r' 0)
       offset_x offset_y rmin inc (theta + inc) rs"

fun mark_beams ::
  "(int \<Rightarrow> map_type) \<Rightarrow> real \<Rightarrow> real \<Rightarrow> real \<Rightarrow> real \<Rightarrow> real \<Rightarrow> real list
     \<Rightarrow> int \<Rightarrow> map_type" where
  "mark_beams lm offset_x offset_y rmin inc theta [] = lm"
| "mark_beams lm offset_x offset_y rmin inc theta (r # rs) =
     mark_beams
       (if rmin < r then
          (let j = local_cell (offset_x + r * cos theta);
               k = local_cell (offset_y + r * sin theta)
           in if in_local j k then lm(j * LOCAL_MAP_SIZE + k := 1) else lm)
        else lm)
       offset_x offset_y rmin inc (theta + inc) rs"

text \<open>
  One cell of one round of the obstacle growth. The third and fourth test guard with
  \<open>i < LOCAL_MAP_SIZE\<close> and \<open>j < LOCAL_MAP_SIZE\<close>, which hold for every cell.
\<close>

definition grow_cell :: "int \<Rightarrow> (int \<Rightarrow> map_type) \<Rightarrow> int \<Rightarrow> int \<Rightarrow> int \<Rightarrow> map_type" where
  "grow_cell r lm i j =
     (if sint (lm (i * LOCAL_MAP_SIZE + j)) \<le> 0 then
        (let lm1 = (if 0 < i \<and> sint (lm ((i - 1) * LOCAL_MAP_SIZE + j)) = r
                    then lm(i * LOCAL_MAP_SIZE + j := word_of_int (r + 1)) else lm);
             lm2 = (if 0 < j \<and> sint (lm1 (i * LOCAL_MAP_SIZE + j - 1)) = r
                    then lm1(i * LOCAL_MAP_SIZE + j := word_of_int (r + 1)) else lm1);
             lm3 = (if i < LOCAL_MAP_SIZE \<and> sint (lm2 ((i + 1) * LOCAL_MAP_SIZE + j)) = r
                    then lm2(i * LOCAL_MAP_SIZE + j := word_of_int (r + 1)) else lm2);
             lm4 = (if j < LOCAL_MAP_SIZE \<and> sint (lm3 (i * LOCAL_MAP_SIZE + j + 1)) = r
                    then lm3(i * LOCAL_MAP_SIZE + j := word_of_int (r + 1)) else lm3)
         in lm4)
      else lm)"

definition grow_round :: "(int \<Rightarrow> map_type) \<Rightarrow> int \<Rightarrow> int \<Rightarrow> map_type" where
  "grow_round lm r =
     foldl (\<lambda>lm1 i. foldl (\<lambda>lm2 j. grow_cell r lm2 i j) lm1 [0..LOCAL_MAP_SIZE - 1])
       lm [0..LOCAL_MAP_SIZE - 1]"

text \<open>\<open>for (int r=1; r<(0.4/MAP_RES); r++)\<close>: the rounds 1, 2 and 3.\<close>

definition grow_obstacles :: "(int \<Rightarrow> map_type) \<Rightarrow> int \<Rightarrow> map_type" where
  "grow_obstacles lm = foldl grow_round lm [1, 2, 3]"

definition build_local_map :: "(int \<Rightarrow> map_type) \<Rightarrow> loc \<Rightarrow> laser_scan \<Rightarrow> int \<Rightarrow> map_type" where
  "build_local_map heap here msg =
     (let theta_base = loc_pose here;
          theta = theta_base + angle_min msg;
          offset_x = modf_frac (loc_x here / MAP_RES) * MAP_RES
                       + LASER_OFFSET * cos theta_base;
          offset_y = modf_frac (loc_y here / MAP_RES) * MAP_RES
                       + LASER_OFFSET * sin theta_base;
          lm0 = local_init heap;
          lm1 = trace_beams lm0 offset_x offset_y (range_min msg) (angle_increment msg)
                  theta (ranges msg);
          lm2 = mark_beams lm1 offset_x offset_y (range_min msg) (angle_increment msg)
                  theta (ranges msg)
      in grow_obstacles lm2)"

text \<open>The value that the merge writes for a local cell \<open>lv\<close> over the global cell \<open>gv\<close>.\<close>

definition merge_value :: "map_type \<Rightarrow> map_type \<Rightarrow> map_type" where
  "merge_value lv gv =
     (let tmp0 = 0 + lv;
          tmp1 = (if 0 < sint tmp0 then 2 else tmp0);
          tmp2 = tmp1 + gv;
          tmp3 = (if 4 < sint tmp2 then 4 else tmp2);
          tmp4 = (if sint tmp3 < 0 then 0 else tmp3)
      in tmp4)"

definition merge_cell ::
  "(int \<Rightarrow> map_type) \<Rightarrow> real \<Rightarrow> real \<Rightarrow> grid \<Rightarrow> int \<Rightarrow> int \<Rightarrow> grid" where
  "merge_cell lm offset_x offset_y g i j =
     (let px = real_of_int (i - LOCAL_MAP_SIZE div 2) * MAP_RES + offset_x;
          py = real_of_int (j - LOCAL_MAP_SIZE div 2) * MAP_RES + offset_y
      in map_set g px py (merge_value (lm (i * LOCAL_MAP_SIZE + j)) (map_get g px py)))"

definition merge_local :: "(int \<Rightarrow> map_type) \<Rightarrow> loc \<Rightarrow> grid \<Rightarrow> grid" where
  "merge_local lm here g =
     (let offset_x = real_of_int (c_round (loc_x here / MAP_RES)) * MAP_RES;
          offset_y = real_of_int (c_round (loc_y here / MAP_RES)) * MAP_RES
      in foldl (\<lambda>g1 i. foldl (\<lambda>g2 j. merge_cell lm offset_x offset_y g2 i j) g1
                         [0..LOCAL_MAP_SIZE - 1])
           g [0..LOCAL_MAP_SIZE - 1])"

text \<open>
  The footprint: \<open>for (double bx = -0.16; bx <= 0.16; bx += MAP_RES/2.0)\<close> around
  \<open>for (double by = -0.17; by < 0.45; by += MAP_RES/2.0)\<close>.
\<close>

function footprint_by_loop :: "real \<Rightarrow> loc \<Rightarrow> real \<Rightarrow> grid \<Rightarrow> real \<Rightarrow> grid" where
  "footprint_by_loop theta here bx g by' =
     (if by' < 45 / 100 then
        footprint_by_loop theta here bx
          (map_set g (bx * cos theta + loc_x here) (by' * sin theta + loc_y here) 0)
          (by' + MAP_RES / 2)
      else g)"
  by pat_completeness auto
termination
  by (relation "measure (\<lambda>(theta, here, bx, g, by'). nat \<lceil>(45 / 100 - by') * 20\<rceil>)")
     (auto simp: MAP_RES_def algebra_simps, linarith)

function footprint_bx_loop :: "real \<Rightarrow> loc \<Rightarrow> grid \<Rightarrow> real \<Rightarrow> grid" where
  "footprint_bx_loop theta here g bx =
     (if bx \<le> 16 / 100 then
        footprint_bx_loop theta here (footprint_by_loop theta here bx g (- (17 / 100)))
          (bx + MAP_RES / 2)
      else g)"
  by pat_completeness auto
termination
proof (relation "measure (\<lambda>(theta, here, g, bx). nat (\<lfloor>(16 / 100 - bx) * 20\<rfloor> + 1))")
  show "wf (measure (\<lambda>(theta::real, here::loc, g::grid, bx).
              nat (\<lfloor>(16 / 100 - bx) * 20\<rfloor> + 1)))"
    by simp
next
  fix theta :: real and here :: loc and g :: grid and bx :: real
  assume h: "bx \<le> 16 / 100"
  have eq: "(16 / 100 - (bx + MAP_RES / 2)) * 20 = (16 / 100 - bx) * 20 - 1"
    by (simp add: MAP_RES_def algebra_simps)
  have "0 \<le> (16 / 100 - bx) * 20"
    using h by simp
  then have nonneg: "0 \<le> \<lfloor>(16 / 100 - bx) * 20\<rfloor>"
    by simp
  have fl: "\<lfloor>(16 / 100 - (bx + MAP_RES / 2)) * 20\<rfloor> = \<lfloor>(16 / 100 - bx) * 20\<rfloor> - 1"
    by (simp only: eq floor_diff_one)
  show "((theta, here, footprint_by_loop theta here bx g (- (17 / 100)),
               bx + MAP_RES / 2), (theta, here, g, bx))
             \<in> measure (\<lambda>(theta, here, g, bx). nat (\<lfloor>(16 / 100 - bx) * 20\<rfloor> + 1))"
    unfolding in_measure prod.case fl using nonneg by linarith
qed

definition clear_footprint :: "loc \<Rightarrow> grid \<Rightarrow> grid" where
  "clear_footprint here g = footprint_bx_loop (loc_pose here) here g (- (16 / 100))"

definition laserCallback :: "(int \<Rightarrow> map_type) \<Rightarrow> laser_scan \<Rightarrow> planner \<Rightarrow> planner" where
  "laserCallback heap msg s =
     (let here = last_loc s;
          local_map = build_local_map heap here msg
      in s\<lparr>map_data := clear_footprint here (merge_local local_map here (map_data s))\<rparr>)"

text \<open>The planner as \<open>main\<close> starts it, with an empty goal message.\<close>

definition planner_init :: planner where
  "planner_init =
     \<lparr>cfg = default_params, map_data = map_init, active = False, position_frame = [],
      planner_state = BACKING, planner_timeout = time0, backup_pose = loc0,
      backup_radius = 0, cone = Flt 0, cone_time = time0, bump = False,
      pattern_center = loc0, done_time = time0,
      goal_msg = \<lparr>pt_frame = [], pt_stamp = time0, pt_x = 0, pt_y = 0\<rparr>,
      last_loc = loc0, last_pose = loc0, published = []\<rparr>"

text \<open>
  The maps that the node can hold: the map of \<open>main\<close>, and a map after a write of the
  laser handler, which writes in its merge step (\<open>merge_cell\<close>, whatever the local map
  holds) and in its footprint step (a 0).
\<close>

inductive map_reachable :: "grid \<Rightarrow> bool" where
  map_reachable_init: "map_reachable map_init"
| map_reachable_merge:
    "map_reachable g \<Longrightarrow> map_reachable (merge_cell lm offset_x offset_y g i j)"
| map_reachable_clear:
    "map_reachable g \<Longrightarrow> map_reachable (map_set g px py 0)"

section \<open>The cone detector\<close>

record point =
  pn_x :: real
  pn_y :: real
  pn_z :: real

definition point0 :: point where
  "point0 = \<lparr>pn_x = 0, pn_y = 0, pn_z = 0\<rparr>"

definition pdist :: "point \<Rightarrow> point \<Rightarrow> real" where
  "pdist a b = hypot (pn_x a - pn_x b) (pn_y a - pn_y b)"

text \<open>The marker message, without the fields that are the same in every message.\<close>

record marker =
  mk_frame :: string
  mk_stamp :: rostime
  mk_points :: "point list"

type_synonym cone_type = "rostime \<times> point"

record detector =
  grouping_threshold :: real
  min_circle_size :: int
  std_dev_threshold :: real
  same_cone_threshold :: real
  min_cone_radius :: real
  max_cone_radius :: real
  det_cones :: "cone_type list"
  det_published :: "marker list"

text \<open>The detector as its constructor leaves it.\<close>

definition detector_init :: detector where
  "detector_init =
     \<lparr>grouping_threshold = 5 / 100, min_circle_size = 4, std_dev_threshold = 15,
      same_cone_threshold = 25 / 100, min_cone_radius = 1 / 10, max_cone_radius = 2 / 10,
      det_cones = [], det_published = []\<rparr>"

text \<open>
  The range segmentation. \<open>tfp\<close> is \<open>listener.transformPoint\<close> into the odometry frame for
  this scan: \<open>None\<close> is the exception, which ends the loop and keeps the groups made so far.
\<close>

fun segment ::
  "(point \<Rightarrow> point option) \<Rightarrow> real \<Rightarrow> real \<Rightarrow> real \<Rightarrow> real \<Rightarrow> point \<Rightarrow> point list list
     \<Rightarrow> real list \<Rightarrow> point list list" where
  "segment tfp rmin threshold inc theta prev groups [] = groups"
| "segment tfp rmin threshold inc theta prev groups (r # rs) =
     (if rmin \<le> r then
        (case tfp \<lparr>pn_x = r * cos theta, pn_y = r * sin theta, pn_z = 0\<rparr> of
           None \<Rightarrow> groups
         | Some b \<Rightarrow>
             (let groups1 = (if threshold < pdist b prev then groups @ [[]] else groups);
                  groups2 = butlast groups1 @ [last groups1 @ [b]]
              in segment tfp rmin threshold inc (theta + inc) b groups2 rs))
      else segment tfp rmin threshold inc (theta + inc) prev groups rs)"

text \<open>
  \<open>group.size() > min_circle_size\<close> compares a \<open>size_t\<close> with an \<open>int\<close>: a negative
  \<open>min_circle_size\<close> becomes a number that no size exceeds.
\<close>

definition big_enough :: "int \<Rightarrow> point list \<Rightarrow> bool" where
  "big_enough m grp = (0 \<le> m \<and> m < int (length grp))"

text \<open>The inscribed angles of the inner points of a group.\<close>

definition inscribed :: "point \<Rightarrow> point \<Rightarrow> point \<Rightarrow> real" where
  "inscribed first last' p =
     atan2 (pn_y first - pn_y p) (pn_x first - pn_x p)
       - atan2 (pn_y last' - pn_y p) (pn_x last' - pn_x p)"

definition group_angles :: "point list \<Rightarrow> real list" where
  "group_angles grp = map (inscribed (hd grp) (last grp)) (tl (butlast grp))"

text \<open>The prerequisite for a circle.\<close>

definition circle_gate :: "point list \<Rightarrow> bool" where
  "circle_gate grp =
     (let first = hd grp; last' = last grp; center = grp ! (length grp div 2);
          theta = atan2 (pn_x last' - pn_x first) (pn_y last' - pn_y first);
          x2 = - ((pn_x center - pn_x first) * cos theta
                   - (pn_y center - pn_y first) * sin theta)
      in \<not> (x2 < 1 / 10 * pdist first last') \<and> \<not> (7 / 10 * pdist first last' < x2))"

text \<open>\<open>group.size() - 2\<close> on a \<open>size_t\<close> of 64 bits.\<close>

definition size_minus_2 :: "nat \<Rightarrow> nat" where
  "size_minus_2 n = (if 2 \<le> n then n - 2 else 2 ^ 64 - 2 + n)"

text \<open>
  The circle through a group. A group of two points divides by zero and has the deviation
  NaN, which is below no threshold. Where the tangent has a pole the double is a huge number
  that the real tangent does not give: that case is outside the model (\<open>Unmodelled\<close>).
\<close>

datatype fit = NotACone | Found point | Unmodelled

definition fit_circle :: "detector \<Rightarrow> point list \<Rightarrow> fit" where
  "fit_circle dt grp =
     (if \<not> circle_gate grp then NotACone
      else if size_minus_2 (length grp) = 0 then NotACone
      else
        (let first = hd grp; last' = last grp; center = grp ! (length grp div 2);
             angles = group_angles grp;
             avg_angle = foldl (+) 0 angles / real (size_minus_2 (length grp));
             std_dev0 = foldl (\<lambda>acc a. acc + (a - avg_angle) * (a - avg_angle)) 0 angles
                          / real (size_minus_2 (length grp));
             std_dev = sqrt std_dev0 * 180 / pi
         in if std_dev < std_dev_threshold dt then
              (if cos (avg_angle - pi / 2) = 0 then Unmodelled
               else
                 (let theta = atan2 (pn_y last' - pn_y first) (pn_x last' - pn_x first);
                      d = pdist first last';
                      x = d / 2;
                      y = d * tan (avg_angle - pi / 2);
                      center1 = center\<lparr>pn_x := pn_x first + x * cos theta - y * sin theta,
                                       pn_y := pn_y first + y * cos theta + x * sin theta\<rparr>;
                      r = hypot x y
                  in if min_cone_radius dt < r \<and> r < max_cone_radius dt then Found center1
                     else NotACone))
            else NotACone))"

text \<open>
  The stored cone nearest to a new centre (the first one among equals), and its removal
  when it is nearer than \<open>same_cone_threshold\<close>.
\<close>

definition nearest_step :: "point \<Rightarrow> cone_type list \<Rightarrow> nat \<times> real \<Rightarrow> nat \<Rightarrow> nat \<times> real" where
  "nearest_step center cs nd i =
     (if pdist (snd (cs ! i)) center < snd nd then (i, pdist (snd (cs ! i)) center) else nd)"

definition nearest :: "point \<Rightarrow> cone_type list \<Rightarrow> nat" where
  "nearest center cs =
     fst (foldl (nearest_step center cs) (0, pdist (snd (hd cs)) center) [0..<length cs])"

definition forget_same :: "detector \<Rightarrow> point \<Rightarrow> cone_type list \<Rightarrow> cone_type list" where
  "forget_same dt center cs =
     (if cs \<noteq> [] then
        (let n = nearest center cs
         in if pdist (snd (cs ! n)) center < same_cone_threshold dt
            then take n cs @ drop (Suc n) cs else cs)
      else cs)"

text \<open>One group of the circle detection, on the stored cones and the new cones.\<close>

definition detect_group ::
  "detector \<Rightarrow> rostime \<Rightarrow> (cone_type list \<times> cone_type list) option \<Rightarrow> point list
     \<Rightarrow> (cone_type list \<times> cone_type list) option" where
  "detect_group dt now st grp =
     (case st of
        None \<Rightarrow> None
      | Some (cs, new_cones) \<Rightarrow>
          (if big_enough (min_circle_size dt) grp then
             (case fit_circle dt grp of
                NotACone \<Rightarrow> Some (cs, new_cones)
              | Unmodelled \<Rightarrow> None
              | Found center \<Rightarrow> Some (forget_same dt center cs, new_cones @ [(now, center)]))
           else Some (cs, new_cones)))"

text \<open>
  The handler of a scan ends in one of three ways. It returns. Or the retention throws:
  \<open>ros::Time\<close> is unsigned, so \<open>ros::Time::now() - ros::Duration(2.0)\<close> throws
  \<open>std::runtime_error\<close> when \<open>now\<close> is before 2 seconds; the difference is taken for each
  stored cone, so only when a cone is left after the association, and no handler catches
  it: nothing is assigned to the cones or published then, and a cone that the association
  erased stays erased. Or \<open>fit_circle\<close> is outside the model.
\<close>

datatype cone_error = TimeOutOfRange detector | FitOutsideModel

definition cone_laserCallback ::
  "(point \<Rightarrow> point option) \<Rightarrow> rostime \<Rightarrow> laser_scan \<Rightarrow> detector
     \<Rightarrow> cone_error + detector" where
  "cone_laserCallback tfp now msg dt =
     (let groups = segment tfp (range_min msg) (grouping_threshold dt) (angle_increment msg)
                     (angle_min msg) point0 [[]] (ranges msg)
      in case foldl (detect_group dt now) (Some (det_cones dt, [])) groups of
           None \<Rightarrow> Inl FitOutsideModel
         | Some (cs, new_cones) \<Rightarrow>
             (if cs \<noteq> [] \<and> toSec now - 2 < 0 then Inl (TimeOutOfRange (dt\<lparr>det_cones := cs\<rparr>))
              else
                (let new_cones1 = new_cones @ filter (\<lambda>p. toSec now - 2 < toSec (fst p)) cs;
                     markers = \<lparr>mk_frame = ''/odom'', mk_stamp = sc_stamp msg,
                                mk_points = map snd new_cones1\<rparr>
                 in Inr (dt\<lparr>det_cones := new_cones1,
                            det_published := det_published dt @ [markers]\<rparr>))))"

section \<open>What the specification asks of the fallback choice\<close>

text \<open>
  The score of a radius as the specification words it: the distance between the goal and
  the end of the arc of length \<open>min(traverse_dist, |r| * pi / 2)\<close>, or of length
  \<open>traverse_dist\<close> for the straight line.
\<close>

definition spec_arc_score :: "loc \<Rightarrow> loc \<Rightarrow> real \<Rightarrow> real \<Rightarrow> real" where
  "spec_arc_score start end' traverse_dist r =
     (let l = (if r = 0 then traverse_dist else min traverse_dist (\<bar>r\<bar> * pi / 2))
      in dist_loc (arc_end start r l) end')"

section \<open>Comparing the two samplings of an arc\<close>

text \<open>The position of a pose of a path, as the \<open>loc h\<close> of \<open>test_arc\<close> holds it.\<close>

definition pose_loc :: "pose_stamped \<Rightarrow> loc" where
  "pose_loc ps = \<lparr>loc_x = ps_x ps, loc_y = ps_y ps, loc_pose = 0\<rparr>"

text \<open>A list of points up to the first one that collides, that one included.\<close>

fun upto_hit :: "grid \<Rightarrow> loc list \<Rightarrow> loc list" where
  "upto_hit g [] = []"
| "upto_hit g (h # hs) = (if test_collision g h then [h] else h # upto_hit g hs)"

text \<open>The point of the arc from \<open>start\<close> with the radius \<open>r\<close> at the distance \<open>ds\<close>.\<close>

definition sample_at :: "loc \<Rightarrow> real \<Rightarrow> real \<Rightarrow> loc" where
  "sample_at start r ds =
     (if r \<noteq> 0 then
        arc_point r (loc_pose start - pi / 2)
          (loc_x start + r * cos (loc_pose start + pi / 2))
          (loc_y start + r * sin (loc_pose start + pi / 2)) ds
      else line_point start ds)"

section \<open>Example states\<close>

text \<open>The planner homing on a cone, started at second 100, with the vision reading 0.\<close>

definition cone_state :: planner where
  "cone_state =
     planner_init\<lparr>planner_state := CONE, planner_timeout := \<lparr>sec = 100, nsec = 0\<rparr>,
       cone_time := \<lparr>sec = 100, nsec = 0\<rparr>\<rparr>"

text \<open>The same with the vision reading 0.3, a cone to the left, and with the reading -0.0.\<close>

definition cone_left_state :: planner where
  "cone_left_state = cone_state\<lparr>cone := Flt (3 / 10)\<rparr>"

definition cone_minus_state :: planner where
  "cone_minus_state = cone_state\<lparr>cone := MinusZero\<rparr>"

text \<open>
  A scan of one beam, a detector that holds one cone seen at time 0, and an odometry
  message in the frame \<open>odom\<close>.
\<close>

definition one_beam :: laser_scan where
  "one_beam = \<lparr>sc_frame = ''laser'', sc_stamp = \<lparr>sec = 10, nsec = 0\<rparr>, angle_min = 0,
                angle_increment = 0, range_min = 0, ranges = [1]\<rparr>"

definition stale_detector :: detector where
  "stale_detector = detector_init\<lparr>det_cones := [(time0, point0)]\<rparr>"

text \<open>A detector that holds a cone seen at time 0 and a cone seen at second 9.\<close>

definition seen_detector :: detector where
  "seen_detector =
     detector_init\<lparr>det_cones :=
       [(time0, point0), (\<lparr>sec = 9, nsec = 0\<rparr>, \<lparr>pn_x = 1, pn_y = 0, pn_z = 0\<rparr>)]\<rparr>"

definition odom_msg :: odometry where
  "odom_msg = \<lparr>od_frame = ''odom'', od_pose = \<lparr>loc_x = 1, loc_y = 2, loc_pose = 0\<rparr>,
                od_linear_x = 0\<rparr>"

text \<open>
  The planner in the mode \<open>FORWARD\<close> on the empty map with the parameters of the source,
  and a goal ahead to the left.
\<close>

definition forward_state :: planner where
  "forward_state = planner_init\<lparr>planner_state := FORWARD\<rparr>"

definition goal11 :: loc where
  "goal11 = \<lparr>loc_x = 1, loc_y = 1, loc_pose = 0\<rparr>"

text \<open>
  A map with an obstacle in every cell to the right of the row of the origin (the cells
  \<open>j < 2500\<close>), the planner in the mode \<open>FORWARD\<close> on that map, and a goal 4 m away,
  ahead to the right.
\<close>

definition wall_map :: grid where
  "wall_map = (\<lambda>k. if k mod MAP_SIZE < 2500 then 2 else 0)"

definition wall_state :: planner where
  "wall_state = planner_init\<lparr>planner_state := FORWARD, map_data := wall_map\<rparr>"

definition goal_right :: loc where
  "goal_right = \<lparr>loc_x = 2 * sqrt 3, loc_y = - 2, loc_pose = 0\<rparr>"

text \<open>The square of the distance from a point to that goal.\<close>

definition sq_to_goal :: "real \<Rightarrow> real \<Rightarrow> real" where
  "sq_to_goal ex ey = (ex - 2 * sqrt 3) * (ex - 2 * sqrt 3) + (ey + 2) * (ey + 2)"

section \<open>Properties\<close>

declare test_arc_loop.simps [simp del] test_line_loop.simps [simp del]
  arc_visit_loop.simps [simp del] line_visit_loop.simps [simp del]
  arc_path_loop.simps [simp del] line_path_loop.simps [simp del]
  norm_down.simps [simp del] norm_up.simps [simp del] ray_loop.simps [simp del]
  footprint_by_loop.simps [simp del] footprint_bx_loop.simps [simp del]

subsection \<open>Access to the map\<close>

text \<open>
  C9. Let \<open>i = round(x / MAP_RES) + MAP_SIZE / 2\<close> and \<open>j\<close> likewise for \<open>y\<close>. When
  \<open>(i, j)\<close> is a cell of the map, \<open>map_get\<close> returns the cell at the index
  \<open>i * MAP_SIZE + j\<close> and \<open>map_set\<close> changes that cell and no other. When it is not,
  \<open>map_get\<close> returns 0 and \<open>map_set\<close> returns the map as it was.
\<close>

theorem map_access:
  "(let i = c_round (px / MAP_RES) + MAP_SIZE div 2;
        j = c_round (py / MAP_RES) + MAP_SIZE div 2
    in if 0 \<le> i \<and> i < MAP_SIZE \<and> 0 \<le> j \<and> j < MAP_SIZE
       then map_get g px py = g (i * MAP_SIZE + j)
            \<and> map_set g px py v = g(i * MAP_SIZE + j := v)
       else map_get g px py = 0 \<and> map_set g px py v = g)"
  by (simp add: map_get_def map_set_def cell_of_def in_map_def Let_def)

subsection \<open>The samples of an arc\<close>

lemma pose_loc_mk:
  "pose_loc \<lparr>ps_frame = f, ps_x = a, ps_y = b\<rparr> = \<lparr>loc_x = a, loc_y = b, loc_pose = 0\<rparr>"
  by (simp add: pose_loc_def)

lemma arc_loops_same:
  "arc_visit_loop g r theta cx cy l ds
     = upto_hit g (map pose_loc (arc_path_loop frame r theta cx cy l ds))
   \<and> test_arc_loop g r theta cx cy l ds
     = (filter (test_collision g) (map pose_loc (arc_path_loop frame r theta cx cy l ds)) = [])"
proof (induction frame r theta cx cy l ds rule: arc_path_loop.induct)
  case (1 frame r theta cx cy l ds)
  show ?case
  proof (cases "ds < l")
    case True
    with 1 show ?thesis
      by (subst arc_visit_loop.simps, subst arc_path_loop.simps, subst test_arc_loop.simps,
          subst (2) arc_path_loop.simps)
         (simp add: pose_loc_mk arc_point_def)
  next
    case False
    then show ?thesis
      by (subst arc_visit_loop.simps, subst arc_path_loop.simps, subst test_arc_loop.simps,
          subst (2) arc_path_loop.simps) simp
  qed
qed

lemma line_loops_same:
  "line_visit_loop g start l ds
     = upto_hit g (map pose_loc (line_path_loop frame start l ds))
   \<and> test_line_loop g start l ds
     = (filter (test_collision g) (map pose_loc (line_path_loop frame start l ds)) = [])"
proof (induction frame start l ds rule: line_path_loop.induct)
  case (1 frame start l ds)
  show ?case
  proof (cases "ds < l")
    case True
    with 1 show ?thesis
      by (subst line_visit_loop.simps, subst line_path_loop.simps, subst test_line_loop.simps,
          subst (2) line_path_loop.simps)
         (simp add: pose_loc_mk line_point_def)
  next
    case False
    then show ?thesis
      by (subst line_visit_loop.simps, subst line_path_loop.simps, subst test_line_loop.simps,
          subst (2) line_path_loop.simps) simp
  qed
qed

lemma steps_left:
  fixes l ds :: real
  assumes "ds < l"
  shows "nat \<lceil>(l - ds) / (MAP_RES / 2)\<rceil> = Suc (nat \<lceil>(l - (ds + MAP_RES / 2)) / (MAP_RES / 2)\<rceil>)"
proof -
  have e: "(l - (ds + MAP_RES / 2)) / (MAP_RES / 2) = (l - ds) / (MAP_RES / 2) - 1"
    by (simp add: MAP_RES_def field_simps)
  have "0 < (l - ds) / (MAP_RES / 2)"
    using assms by (simp add: MAP_RES_def)
  then have "0 < \<lceil>(l - ds) / (MAP_RES / 2)\<rceil>"
    by simp
  then show ?thesis
    unfolding e by (simp only: ceiling_diff_one)
qed

lemma steps_none:
  fixes l ds :: real
  assumes "\<not> ds < l"
  shows "nat \<lceil>(l - ds) / (MAP_RES / 2)\<rceil> = 0"
proof -
  have "(l - ds) / (MAP_RES / 2) \<le> 0"
    using assms by (simp add: MAP_RES_def)
  then have "\<lceil>(l - ds) / (MAP_RES / 2)\<rceil> \<le> 0"
    by (simp add: ceiling_le_iff)
  then show ?thesis by simp
qed

lemma upt_shift: "map f [0..<Suc n] = f 0 # map (\<lambda>k. f (Suc k)) [0..<n]"
  by (simp only: upt_conv_Cons [of 0 "Suc n"] list.map map_Suc_upt [symmetric] map_map o_def)

lemma arc_path_spacing:
  "map pose_loc (arc_path_loop frame r th cx cy l ds)
     = map (\<lambda>k. arc_point r th cx cy (ds + real k * (MAP_RES / 2)))
         [0..<nat \<lceil>(l - ds) / (MAP_RES / 2)\<rceil>]"
proof (induction frame r th cx cy l ds rule: arc_path_loop.induct)
  case (1 frame r th cx cy l ds)
  let ?f = "\<lambda>k. arc_point r th cx cy (ds + real k * (MAP_RES / 2))"
  let ?n = "nat \<lceil>(l - (ds + MAP_RES / 2)) / (MAP_RES / 2)\<rceil>"
  show ?case
  proof (cases "ds < l")
    case True
    have sh: "ds + MAP_RES / 2 + real k * (MAP_RES / 2) = ds + real (Suc k) * (MAP_RES / 2)" for k
      by (simp add: algebra_simps)
    have "map pose_loc (arc_path_loop frame r th cx cy l ds)
            = arc_point r th cx cy ds
                # map pose_loc (arc_path_loop frame r th cx cy l (ds + MAP_RES / 2))"
      using True by (subst arc_path_loop.simps) (simp add: pose_loc_mk arc_point_def)
    also have "\<dots> = ?f 0 # map (\<lambda>k. ?f (Suc k)) [0..<?n]"
      using 1 [OF True] by (simp only: sh) simp
    also have "\<dots> = map ?f [0..<Suc ?n]"
      by (rule upt_shift [symmetric])
    finally show ?thesis
      by (simp only: steps_left [OF True])
  next
    case False
    then show ?thesis
      by (subst arc_path_loop.simps) (simp only: steps_none [OF False], simp)
  qed
qed

lemma line_path_spacing:
  "map pose_loc (line_path_loop frame start l ds)
     = map (\<lambda>k. line_point start (ds + real k * (MAP_RES / 2)))
         [0..<nat \<lceil>(l - ds) / (MAP_RES / 2)\<rceil>]"
proof (induction frame start l ds rule: line_path_loop.induct)
  case (1 frame start l ds)
  let ?f = "\<lambda>k. line_point start (ds + real k * (MAP_RES / 2))"
  let ?n = "nat \<lceil>(l - (ds + MAP_RES / 2)) / (MAP_RES / 2)\<rceil>"
  show ?case
  proof (cases "ds < l")
    case True
    have sh: "ds + MAP_RES / 2 + real k * (MAP_RES / 2) = ds + real (Suc k) * (MAP_RES / 2)" for k
      by (simp add: algebra_simps)
    have "map pose_loc (line_path_loop frame start l ds)
            = line_point start ds
                # map pose_loc (line_path_loop frame start l (ds + MAP_RES / 2))"
      using True by (subst line_path_loop.simps) (simp add: pose_loc_mk line_point_def)
    also have "\<dots> = ?f 0 # map (\<lambda>k. ?f (Suc k)) [0..<?n]"
      using 1 [OF True] by (simp only: sh) simp
    also have "\<dots> = map ?f [0..<Suc ?n]"
      by (rule upt_shift [symmetric])
    finally show ?thesis
      by (simp only: steps_left [OF True])
  next
    case False
    then show ?thesis
      by (subst line_path_loop.simps) (simp only: steps_none [OF False], simp)
  qed
qed

lemma arcToPath_spacing:
  "map pose_loc (np_poses (arcToPath frame start r l))
     = map (\<lambda>k. sample_at start r (real k * (MAP_RES / 2))) [0..<nat \<lceil>l / (MAP_RES / 2)\<rceil>]"
  using arc_path_spacing [of frame r _ _ _ l 0] line_path_spacing [of frame start l 0]
  by (simp add: arcToPath_def sample_at_def Let_def)

text \<open>
  C3. For every map, start, radius and length, the points that \<open>test_arc\<close> tests are the
  points of the path of \<open>arcToPath\<close> for the same start, radius and length, in the same
  order, up to the first point that collides, where \<open>test_arc\<close> returns. \<open>test_arc\<close>
  passes exactly when no point of that path collides, and then it has tested them all. The
  points of the path are the points of the arc at the distances \<open>0\<close>, \<open>MAP_RES / 2\<close>,
  \<open>2 * MAP_RES / 2\<close>, ... below the length.
\<close>

theorem test_arc_samples_arcToPath:
  "test_arc_visited g start r l
     = upto_hit g (map pose_loc (np_poses (arcToPath frame start r l)))
   \<and> test_arc g start r l
     = (filter (test_collision g) (map pose_loc (np_poses (arcToPath frame start r l))) = [])
   \<and> map pose_loc (np_poses (arcToPath frame start r l))
     = map (\<lambda>k. sample_at start r (real k * (MAP_RES / 2))) [0..<nat \<lceil>l / (MAP_RES / 2)\<rceil>]"
proof -
  have "test_arc_visited g start r l
          = upto_hit g (map pose_loc (np_poses (arcToPath frame start r l)))
        \<and> test_arc g start r l
          = (filter (test_collision g) (map pose_loc (np_poses (arcToPath frame start r l)))
               = [])"
    using arc_loops_same line_loops_same
    by (simp add: test_arc_visited_def test_arc_def arcToPath_def Let_def)
  then show ?thesis
    using arcToPath_spacing by blast
qed

subsection \<open>Going along an arc and back\<close>

text \<open>
  C5. From the pose \<open>(0, 0, 0)\<close>, the arc of radius 1 and length \<open>pi\<close> followed by the arc
  of radius 1 and length \<open>- pi\<close> ends at \<open>(- 2, 2)\<close> with the yaw \<open>- pi\<close>, not at the start:
  \<open>arc_end\<close> returns the yaw \<open>theta + l / r\<close>, a quarter turn less than the heading at
  the end of the arc.
\<close>

theorem arc_end_round_trip_fails:
  "arc_end (arc_end loc0 1 pi) 1 (- pi) = \<lparr>loc_x = - 2, loc_y = 2, loc_pose = - pi\<rparr>"
  by (simp add: arc_end_def loc0_def Let_def)

subsection \<open>The values of the map\<close>

lemma merge_value_range: "0 \<le> sint (merge_value lv gv) \<and> sint (merge_value lv gv) \<le> 4"
  by (simp add: merge_value_def Let_def)

lemma map_set_cell:
  "map_set g px py v k = v \<or> map_set g px py v k = g k"
  by (simp add: map_set_def Let_def)

text \<open>
  C1. In every map that the node can hold (the map of \<open>main\<close>, all 0, and every map that
  a write of the merge step or of the footprint step of the laser handler leaves), every
  cell, the written one among them, holds a value from 0 to 4.
\<close>

theorem map_cells_in_range:
  assumes "map_reachable g"
  shows "0 \<le> sint (g k) \<and> sint (g k) \<le> 4"
  using assms
proof (induction arbitrary: k rule: map_reachable.induct)
  case map_reachable_init
  show ?case by (simp add: map_init_def)
next
  case (map_reachable_merge g lm offset_x offset_y i j)
  let ?px = "real_of_int (i - LOCAL_MAP_SIZE div 2) * MAP_RES + offset_x"
  let ?py = "real_of_int (j - LOCAL_MAP_SIZE div 2) * MAP_RES + offset_y"
  let ?v = "merge_value (lm (i * LOCAL_MAP_SIZE + j)) (map_get g ?px ?py)"
  have eq: "merge_cell lm offset_x offset_y g i j = map_set g ?px ?py ?v"
    by (simp add: merge_cell_def Let_def)
  from map_set_cell [of g ?px ?py ?v k] show ?case
  proof
    assume "map_set g ?px ?py ?v k = ?v"
    then show ?thesis using merge_value_range eq by simp
  next
    assume "map_set g ?px ?py ?v k = g k"
    then show ?thesis using map_reachable_merge.IH eq by simp
  qed
next
  case (map_reachable_clear g px py)
  from map_set_cell [of g px py 0 k] show ?case
  proof
    assume "map_set g px py 0 k = 0"
    then show ?thesis by simp
  next
    assume "map_set g px py 0 k = g k"
    then show ?thesis using map_reachable_clear.IH by simp
  qed
qed

text \<open>The laser handler makes only such writes, for every scan.\<close>

lemma merge_row_reachable:
  "map_reachable g \<Longrightarrow>
   map_reachable (foldl (\<lambda>g2 j. merge_cell lm ox oy g2 i j) g js)"
  by (induction js arbitrary: g) (simp_all add: map_reachable_merge)

lemma merge_rows_reachable:
  "map_reachable g \<Longrightarrow>
   map_reachable (foldl (\<lambda>g1 i. foldl (\<lambda>g2 j. merge_cell lm ox oy g2 i j) g1 js) g is)"
  by (induction "is" arbitrary: g) (simp_all add: merge_row_reachable)

lemma merge_local_reachable:
  "map_reachable g \<Longrightarrow> map_reachable (merge_local lm here g)"
  by (simp add: merge_local_def Let_def merge_rows_reachable)

lemma footprint_by_reachable:
  "map_reachable g \<Longrightarrow> map_reachable (footprint_by_loop theta here bx g by')"
proof (induction theta here bx g by' rule: footprint_by_loop.induct)
  case (1 theta here bx g by')
  show ?case
  proof (cases "by' < 45 / 100")
    case True
    with 1 show ?thesis
      by (subst footprint_by_loop.simps) (simp add: map_reachable_clear)
  next
    case False
    with 1 show ?thesis
      by (subst footprint_by_loop.simps) simp
  qed
qed

lemma footprint_bx_reachable:
  "map_reachable g \<Longrightarrow> map_reachable (footprint_bx_loop theta here g bx)"
proof (induction theta here g bx rule: footprint_bx_loop.induct)
  case (1 theta here g bx)
  show ?case
  proof (cases "bx \<le> 16 / 100")
    case True
    with 1 show ?thesis
      by (subst footprint_bx_loop.simps) (simp add: footprint_by_reachable)
  next
    case False
    with 1 show ?thesis
      by (subst footprint_bx_loop.simps) simp
  qed
qed

lemma laserCallback_reachable:
  "map_reachable (map_data s) \<Longrightarrow> map_reachable (map_data (laserCallback heap msg s))"
  by (simp add: laserCallback_def Let_def clear_footprint_def footprint_bx_reachable
        merge_local_reachable)

theorem map_cells_in_range_witness:
  "map_reachable
     (map_data (laserCallback (\<lambda>k. 0)
        \<lparr>sc_frame = [], sc_stamp = time0, angle_min = 0, angle_increment = 0, range_min = 0,
         ranges = [1]\<rparr> planner_init))
   \<and> 0 \<le> sint (map_data (laserCallback (\<lambda>k. 0)
        \<lparr>sc_frame = [], sc_stamp = time0, angle_min = 0, angle_increment = 0, range_min = 0,
         ranges = [1]\<rparr> planner_init) 12502500)
   \<and> sint (map_data (laserCallback (\<lambda>k. 0)
        \<lparr>sc_frame = [], sc_stamp = time0, angle_min = 0, angle_increment = 0, range_min = 0,
         ranges = [1]\<rparr> planner_init) 12502500) \<le> 4"
proof -
  have init: "map_reachable (map_data planner_init)"
    by (simp add: planner_init_def map_reachable_init)
  show ?thesis
    using laserCallback_reachable [OF init]
      map_cells_in_range [OF laserCallback_reachable [OF init]]
    by blast
qed

subsection \<open>Backing up\<close>

lemma dist_loc0 [simp]: "dist_loc loc0 loc0 = 0"
  by (simp add: dist_loc_def hypot_def)

text \<open>
  C7, as the code has it. In the mode \<open>BACKING\<close> \<open>plan_path\<close> returns the speed
  \<open>- 2 * min_speed\<close> and the radius \<open>backup_radius\<close> on every call. It goes to
  \<open>FORWARD\<close>, and sets the seconds of \<open>planner_timeout\<close> to 0, exactly when
  \<open>now - planner_timeout\<close> is more than \<open>backup_time\<close> or the distance from
  \<open>backup_pose\<close> is more than \<open>backup_dist\<close>; otherwise the state stays as it was.
\<close>

theorem backing_mode:
  assumes "planner_state s = BACKING"
  shows "plan_path now s start goal =
           Some (\<lparr>p_speed = Fin (- 2 * min_speed (cfg s)), p_radius = Fin (backup_radius s)\<rparr>,
                 if backup_time (cfg s) < elapsed now (planner_timeout s)
                    \<or> backup_dist (cfg s) < dist_loc start (backup_pose s)
                 then s\<lparr>planner_state := FORWARD,
                        planner_timeout := (planner_timeout s)\<lparr>sec := 0\<rparr>\<rparr>
                 else s)"
  using assms
  by (simp add: plan_path_def plan_backing_def Let_def clear_timeout_def)

theorem backing_mode_witness:
  "planner_state planner_init = BACKING
   \<and> plan_path \<lparr>sec = 11, nsec = 0\<rparr> planner_init loc0 loc0 =
       Some (\<lparr>p_speed = Fin (- (2 / 10)), p_radius = Fin 0\<rparr>,
             planner_init\<lparr>planner_state := FORWARD, planner_timeout := time0\<rparr>)"
  using backing_mode [of planner_init "\<lparr>sec = 11, nsec = 0\<rparr>" loc0 loc0]
  by (simp add: planner_init_def default_params_def elapsed_def toSec_def time0_def)

text \<open>
  C7 as claimed fails where the time is equal to \<open>backup_time\<close>: 10 seconds after
  \<open>planner_timeout\<close>, at the place where the backing began, the planner stays in
  \<open>BACKING\<close>.
\<close>

theorem backing_exit_at_equality_counterexample:
  "planner_state planner_init = BACKING
   \<and> backup_time (cfg planner_init)
       \<le> elapsed \<lparr>sec = 10, nsec = 0\<rparr> (planner_timeout planner_init)
   \<and> plan_path \<lparr>sec = 10, nsec = 0\<rparr> planner_init loc0 loc0 =
       Some (\<lparr>p_speed = Fin (- (2 / 10)), p_radius = Fin 0\<rparr>, planner_init)
   \<and> planner_state planner_init \<noteq> FORWARD"
  by (simp add: plan_path_def plan_backing_def Let_def clear_timeout_def
        planner_init_def default_params_def elapsed_def toSec_def time0_def)

subsection \<open>Homing on a cone\<close>

lemma cone_mode_radius:
  assumes "planner_state s = CONE"
    and "elapsed now (cone_time s) < cone_timeout (cfg s)"
    and "\<not> bump s"
    and "\<not> toSec (planner_timeout s) + 60 < toSec now"
  shows "plan_path now s start goal =
           Some (\<lparr>p_speed = Fin (cone_speed (cfg s)),
                  p_radius = ddivf (cone_speed (cfg s)) (times14 (cone s))\<rparr>, s)"
  using assms by (simp add: plan_path_def plan_cone_def Let_def)

lemma cone_radius_nonzero:
  assumes "c = Flt 0 \<or> c = MinusZero \<or> a \<noteq> 0"
  shows "dnonzero (ddivf a (times14 c))"
proof (cases c)
  case (Flt x)
  then show ?thesis
    using assms by (auto simp: ddiv_def)
next
  case MinusZero
  then show ?thesis
    by simp
qed

text \<open>
  C10. In the mode \<open>CONE\<close>, with a vision reading younger than \<open>cone_timeout\<close>, no bump
  and no timeout, \<open>plan_path\<close> returns the radius \<open>cone_speed / (cone * 1.4)\<close> for every
  reading, with no test of the reading: the quotient of the reals for a reading that is
  not zero, and for a reading of zero, of either sign, and a \<open>cone_speed\<close> that is not 0,
  an infinity, returned as any other radius. \<open>positionCallback\<close> guards its division
  \<open>speed / radius\<close> against the radius 0 only: it divides by every other radius, the
  infinite one among them.
\<close>

theorem cone_mode_division:
  assumes "planner_state s = CONE"
    and "elapsed now (cone_time s) < cone_timeout (cfg s)"
    and "\<not> bump s"
    and "\<not> toSec (planner_timeout s) + 60 < toSec now"
  shows "plan_path now s start goal =
           Some (\<lparr>p_speed = Fin (cone_speed (cfg s)),
                  p_radius = ddivf (cone_speed (cfg s)) (times14 (cone s))\<rparr>, s)
         \<and> (\<forall>c. cone s = Flt c \<and> c \<noteq> 0 \<longrightarrow>
              ddivf (cone_speed (cfg s)) (times14 (cone s)) =
                Fin (cone_speed (cfg s) / (c * (14 / 10))))
         \<and> ((cone s = Flt 0 \<or> cone s = MinusZero) \<and> cone_speed (cfg s) \<noteq> 0 \<longrightarrow>
              dabs (ddivf (cone_speed (cfg s)) (times14 (cone s))) = PInf)
         \<and> (cone s = Flt 0 \<or> cone s = MinusZero \<or> cone_speed (cfg s) \<noteq> 0 \<longrightarrow>
              command (cfg s) v
                \<lparr>p_speed = Fin (cone_speed (cfg s)),
                 p_radius = ddivf (cone_speed (cfg s)) (times14 (cone s))\<rparr> =
              \<lparr>linear_x = limit_accel (cfg s) v (Fin (cone_speed (cfg s))),
               angular_z = ddiv2 (limit_accel (cfg s) v (Fin (cone_speed (cfg s))))
                             (ddivf (cone_speed (cfg s)) (times14 (cone s)))\<rparr>)"
proof (intro conjI allI impI)
  show "plan_path now s start goal =
           Some (\<lparr>p_speed = Fin (cone_speed (cfg s)),
                  p_radius = ddivf (cone_speed (cfg s)) (times14 (cone s))\<rparr>, s)"
    by (rule cone_mode_radius [OF assms])
next
  fix c
  assume "cone s = Flt c \<and> c \<noteq> 0"
  then show "ddivf (cone_speed (cfg s)) (times14 (cone s)) =
                Fin (cone_speed (cfg s) / (c * (14 / 10)))"
    by (simp add: ddiv_def)
next
  assume "(cone s = Flt 0 \<or> cone s = MinusZero) \<and> cone_speed (cfg s) \<noteq> 0"
  then show "dabs (ddivf (cone_speed (cfg s)) (times14 (cone s))) = PInf"
    by (auto simp: ddiv_def)
next
  assume "cone s = Flt 0 \<or> cone s = MinusZero \<or> cone_speed (cfg s) \<noteq> 0"
  then have "dnonzero (ddivf (cone_speed (cfg s)) (times14 (cone s)))"
    by (rule cone_radius_nonzero)
  then show "command (cfg s) v
                \<lparr>p_speed = Fin (cone_speed (cfg s)),
                 p_radius = ddivf (cone_speed (cfg s)) (times14 (cone s))\<rparr> =
              \<lparr>linear_x = limit_accel (cfg s) v (Fin (cone_speed (cfg s))),
               angular_z = ddiv2 (limit_accel (cfg s) v (Fin (cone_speed (cfg s))))
                             (ddivf (cone_speed (cfg s)) (times14 (cone s)))\<rparr>"
    by (simp add: command_def Let_def)
qed

theorem cone_mode_division_witness:
  "planner_state cone_state = CONE
   \<and> elapsed \<lparr>sec = 100, nsec = 500000000\<rparr> (cone_time cone_state)
       < cone_timeout (cfg cone_state)
   \<and> \<not> bump cone_state
   \<and> \<not> toSec (planner_timeout cone_state) + 60 < toSec \<lparr>sec = 100, nsec = 500000000\<rparr>
   \<and> cone cone_state = Flt 0
   \<and> cone_speed (cfg cone_state) \<noteq> 0
   \<and> plan_path \<lparr>sec = 100, nsec = 500000000\<rparr> cone_state loc0 loc0 =
        Some (\<lparr>p_speed = Fin (4 / 10), p_radius = PInf\<rparr>, cone_state)
   \<and> command (cfg cone_state) 0 \<lparr>p_speed = Fin (4 / 10), p_radius = PInf\<rparr> =
        \<lparr>linear_x = Fin (3 / 10), angular_z = Fin 0\<rparr>
   \<and> planner_state cone_minus_state = CONE
   \<and> elapsed \<lparr>sec = 100, nsec = 500000000\<rparr> (cone_time cone_minus_state)
       < cone_timeout (cfg cone_minus_state)
   \<and> \<not> bump cone_minus_state
   \<and> \<not> toSec (planner_timeout cone_minus_state) + 60
         < toSec \<lparr>sec = 100, nsec = 500000000\<rparr>
   \<and> cone cone_minus_state = MinusZero
   \<and> cone_speed (cfg cone_minus_state) \<noteq> 0
   \<and> plan_path \<lparr>sec = 100, nsec = 500000000\<rparr> cone_minus_state loc0 loc0 =
        Some (\<lparr>p_speed = Fin (4 / 10), p_radius = NInf\<rparr>, cone_minus_state)
   \<and> command (cfg cone_minus_state) 0 \<lparr>p_speed = Fin (4 / 10), p_radius = NInf\<rparr> =
        \<lparr>linear_x = Fin (3 / 10), angular_z = Fin 0\<rparr>
   \<and> planner_state cone_left_state = CONE
   \<and> elapsed \<lparr>sec = 100, nsec = 500000000\<rparr> (cone_time cone_left_state)
       < cone_timeout (cfg cone_left_state)
   \<and> \<not> bump cone_left_state
   \<and> \<not> toSec (planner_timeout cone_left_state) + 60
         < toSec \<lparr>sec = 100, nsec = 500000000\<rparr>
   \<and> cone cone_left_state = Flt (3 / 10)
   \<and> (3 / 10 :: real) \<noteq> 0
   \<and> cone_speed (cfg cone_left_state) \<noteq> 0
   \<and> plan_path \<lparr>sec = 100, nsec = 500000000\<rparr> cone_left_state loc0 loc0 =
        Some (\<lparr>p_speed = Fin (4 / 10), p_radius = Fin (20 / 21)\<rparr>, cone_left_state)
   \<and> command (cfg cone_left_state) 0 \<lparr>p_speed = Fin (4 / 10), p_radius = Fin (20 / 21)\<rparr> =
        \<lparr>linear_x = Fin (3 / 10), angular_z = Fin (63 / 200)\<rparr>"
proof -
  let ?now = "\<lparr>sec = 100, nsec = 500000000\<rparr>"
  have a: "planner_state cone_state = CONE" "planner_state cone_minus_state = CONE"
    "planner_state cone_left_state = CONE"
    by (simp_all add: cone_left_state_def cone_minus_state_def cone_state_def)
  have b: "elapsed ?now (cone_time cone_state) < cone_timeout (cfg cone_state)"
    "elapsed ?now (cone_time cone_minus_state) < cone_timeout (cfg cone_minus_state)"
    "elapsed ?now (cone_time cone_left_state) < cone_timeout (cfg cone_left_state)"
    by (simp_all add: cone_left_state_def cone_minus_state_def cone_state_def planner_init_def
          default_params_def elapsed_def toSec_def)
  have c: "\<not> bump cone_state" "\<not> bump cone_minus_state" "\<not> bump cone_left_state"
    by (simp_all add: cone_left_state_def cone_minus_state_def cone_state_def planner_init_def)
  have d: "\<not> toSec (planner_timeout cone_state) + 60 < toSec ?now"
    "\<not> toSec (planner_timeout cone_minus_state) + 60 < toSec ?now"
    "\<not> toSec (planner_timeout cone_left_state) + 60 < toSec ?now"
    by (simp_all add: cone_left_state_def cone_minus_state_def cone_state_def toSec_def)
  have e: "cone cone_state = Flt 0" "cone cone_minus_state = MinusZero"
    "cone cone_left_state = Flt (3 / 10)"
    by (simp_all add: cone_left_state_def cone_minus_state_def cone_state_def planner_init_def)
  have g: "cone_speed (cfg cone_state) = 4 / 10" "max_accel (cfg cone_state) = 3 / 10"
    "cone_speed (cfg cone_minus_state) = 4 / 10" "max_accel (cfg cone_minus_state) = 3 / 10"
    "cone_speed (cfg cone_left_state) = 4 / 10" "max_accel (cfg cone_left_state) = 3 / 10"
    by (simp_all add: cone_left_state_def cone_minus_state_def cone_state_def planner_init_def
          default_params_def)
  have f: "cone_speed (cfg cone_state) \<noteq> 0" "cone_speed (cfg cone_minus_state) \<noteq> 0"
    "cone_speed (cfg cone_left_state) \<noteq> 0"
    by (simp_all add: g)
  have r: "ddivf (4 / 10) (times14 (Flt 0)) = PInf"
    "ddivf (4 / 10) (times14 MinusZero) = NInf"
    "ddivf (4 / 10) (times14 (Flt (3 / 10))) = Fin (20 / 21)"
    by (simp_all add: ddiv_def)
  note z = cone_mode_division [OF a(1) b(1) c(1) d(1), of loc0 loc0 0, unfolded g e r]
  note m = cone_mode_division [OF a(2) b(2) c(2) d(2), of loc0 loc0 0, unfolded g e r]
  note l = cone_mode_division [OF a(3) b(3) c(3) d(3), of loc0 loc0 0, unfolded g e r]
  have z1: "plan_path ?now cone_state loc0 loc0 =
        Some (\<lparr>p_speed = Fin (4 / 10), p_radius = PInf\<rparr>, cone_state)"
    using z by blast
  have z2: "command (cfg cone_state) 0 \<lparr>p_speed = Fin (4 / 10), p_radius = PInf\<rparr> =
        \<lparr>linear_x = Fin (3 / 10), angular_z = Fin 0\<rparr>"
    using z by (simp add: limit_accel_def g)
  have m1: "plan_path ?now cone_minus_state loc0 loc0 =
        Some (\<lparr>p_speed = Fin (4 / 10), p_radius = NInf\<rparr>, cone_minus_state)"
    using m by blast
  have m2: "command (cfg cone_minus_state) 0 \<lparr>p_speed = Fin (4 / 10), p_radius = NInf\<rparr> =
        \<lparr>linear_x = Fin (3 / 10), angular_z = Fin 0\<rparr>"
    using m by (simp add: limit_accel_def g)
  have l1: "plan_path ?now cone_left_state loc0 loc0 =
        Some (\<lparr>p_speed = Fin (4 / 10), p_radius = Fin (20 / 21)\<rparr>, cone_left_state)"
    using l by blast
  have l2: "command (cfg cone_left_state) 0 \<lparr>p_speed = Fin (4 / 10), p_radius = Fin (20 / 21)\<rparr> =
        \<lparr>linear_x = Fin (3 / 10), angular_z = Fin (63 / 200)\<rparr>"
    using l by (simp add: limit_accel_def g ddiv_def)
  have n: "(3 / 10 :: real) \<noteq> 0"
    by simp
  from a b c d e f n z1 z2 m1 m2 l1 l2 show ?thesis
    by blast
qed

subsection \<open>A transform that fails\<close>

lemma segment_no_transform:
  "segment (\<lambda>p. None) rmin threshold inc theta prev groups rs = groups"
  by (induction rs arbitrary: theta) simp_all

lemma detect_empty_group: "detect_group dt now (Some st) [] = Some st"
  by (cases st) (auto simp: detect_group_def big_enough_def)

lemma positionCallback_no_transform:
  assumes "od_frame msg \<noteq> pt_frame (goal_msg s)"
    and "tf (od_frame msg) (goal_msg s) = None"
  shows "positionCallback tf now msg s =
           Some (s\<lparr>last_loc := od_pose msg, last_pose := od_pose msg,
                    position_frame := od_frame msg\<rparr>)"
  using assms by (simp add: positionCallback_def Let_def)

lemma no_transform_late:
  assumes "2 \<le> toSec now \<or> det_cones dt = []"
  shows "cone_laserCallback (\<lambda>p. None) now scan dt =
           Inr (dt\<lparr>det_cones := filter (\<lambda>p. toSec now - 2 < toSec (fst p)) (det_cones dt),
                    det_published := det_published dt @
                      [\<lparr>mk_frame = ''/odom'', mk_stamp = sc_stamp scan,
                        mk_points =
                          map snd (filter (\<lambda>p. toSec now - 2 < toSec (fst p)) (det_cones dt))\<rparr>]\<rparr>)"
proof -
  have "\<not> (det_cones dt \<noteq> [] \<and> toSec now - 2 < 0)"
    using assms by auto
  then show ?thesis
    by (simp add: cone_laserCallback_def Let_def segment_no_transform detect_empty_group)
qed

text \<open>
  Before second 2 with a cone stored, the handler ends with the exception of the retention
  and leaves the detector as it was.
\<close>

lemma no_transform_early:
  assumes "det_cones dt \<noteq> []" and "toSec now < 2"
  shows "cone_laserCallback (\<lambda>p. None) now scan dt = Inl (TimeOutOfRange dt)"
  using assms
  by (simp add: cone_laserCallback_def Let_def segment_no_transform detect_empty_group)

text \<open>
  C2, as the code has it. When the transform fails for every point of a scan, and \<open>now\<close>
  is at least 2 seconds or no cone is stored, the detector still ends the scan as any
  other: it finds no group, keeps the stored cones seen less than 2 seconds before \<open>now\<close>,
  drops the others and publishes the kept ones. When the goal is in another frame and
  cannot be transformed, \<open>positionCallback\<close> has stored the pose and the frame of the
  message and changes nothing else: the goal, the mode and the timers stay, and nothing is
  published.
\<close>

theorem transform_unavailable:
  assumes "od_frame msg \<noteq> pt_frame (goal_msg s)"
    and "tf (od_frame msg) (goal_msg s) = None"
    and "2 \<le> toSec now \<or> det_cones dt = []"
  shows "cone_laserCallback (\<lambda>p. None) now scan dt =
           Inr (dt\<lparr>det_cones := filter (\<lambda>p. toSec now - 2 < toSec (fst p)) (det_cones dt),
                    det_published := det_published dt @
                      [\<lparr>mk_frame = ''/odom'', mk_stamp = sc_stamp scan,
                        mk_points =
                          map snd (filter (\<lambda>p. toSec now - 2 < toSec (fst p)) (det_cones dt))\<rparr>]\<rparr>)
         \<and> positionCallback tf now msg s =
             Some (s\<lparr>last_loc := od_pose msg, last_pose := od_pose msg,
                      position_frame := od_frame msg\<rparr>)"
  using positionCallback_no_transform [of msg s tf now] no_transform_late [of now dt scan] assms
  by simp

theorem transform_unavailable_witness:
  "od_frame odom_msg \<noteq> pt_frame (goal_msg planner_init)
   \<and> (\<lambda>f p. None) (od_frame odom_msg) (goal_msg planner_init) = (None :: point_stamped option)
   \<and> 2 \<le> toSec \<lparr>sec = 10, nsec = 0\<rparr>
   \<and> cone_laserCallback (\<lambda>p. None) \<lparr>sec = 10, nsec = 0\<rparr> one_beam seen_detector =
       Inr (seen_detector\<lparr>det_cones := [(\<lparr>sec = 9, nsec = 0\<rparr>, \<lparr>pn_x = 1, pn_y = 0, pn_z = 0\<rparr>)],
              det_published :=
               [\<lparr>mk_frame = ''/odom'', mk_stamp = \<lparr>sec = 10, nsec = 0\<rparr>,
                 mk_points = [\<lparr>pn_x = 1, pn_y = 0, pn_z = 0\<rparr>]\<rparr>]\<rparr>)
   \<and> positionCallback (\<lambda>f p. None) \<lparr>sec = 10, nsec = 0\<rparr> odom_msg planner_init =
       Some (planner_init\<lparr>last_loc := \<lparr>loc_x = 1, loc_y = 2, loc_pose = 0\<rparr>,
                          last_pose := \<lparr>loc_x = 1, loc_y = 2, loc_pose = 0\<rparr>,
                          position_frame := ''odom''\<rparr>)"
proof -
  have a: "od_frame odom_msg \<noteq> pt_frame (goal_msg planner_init)"
    by (simp add: odom_msg_def planner_init_def)
  have b: "(\<lambda>f p. None) (od_frame odom_msg) (goal_msg planner_init)
             = (None :: point_stamped option)"
    by simp
  have t: "2 \<le> toSec \<lparr>sec = 10, nsec = 0\<rparr>"
    by (simp add: toSec_def)
  then have c: "2 \<le> toSec \<lparr>sec = 10, nsec = 0\<rparr> \<or> det_cones seen_detector = []"
    by simp
  show ?thesis
    using transform_unavailable [OF a b c, of one_beam] a t
    by (simp add: odom_msg_def one_beam_def seen_detector_def detector_init_def toSec_def
          time0_def)
qed

text \<open>
  C2 as claimed fails: a scan whose transform fails, 10 seconds after the stored cone was
  seen, empties the stored cones and publishes a marker message, and an odometry message
  whose goal transform fails changes \<open>last_loc\<close>.
\<close>

theorem transform_unavailable_counterexample:
  "cone_laserCallback (\<lambda>p. None) \<lparr>sec = 10, nsec = 0\<rparr> one_beam stale_detector =
     Inr (stale_detector\<lparr>det_cones := [],
            det_published := [\<lparr>mk_frame = ''/odom'', mk_stamp = \<lparr>sec = 10, nsec = 0\<rparr>,
                               mk_points = []\<rparr>]\<rparr>)
   \<and> det_cones stale_detector \<noteq> []
   \<and> det_published stale_detector = []
   \<and> positionCallback (\<lambda>f p. None) \<lparr>sec = 10, nsec = 0\<rparr> odom_msg planner_init =
       Some (planner_init\<lparr>last_loc := \<lparr>loc_x = 1, loc_y = 2, loc_pose = 0\<rparr>,
                          last_pose := \<lparr>loc_x = 1, loc_y = 2, loc_pose = 0\<rparr>,
                          position_frame := ''odom''\<rparr>)
   \<and> last_loc planner_init \<noteq> \<lparr>loc_x = 1, loc_y = 2, loc_pose = 0\<rparr>"
  by (simp add: cone_laserCallback_def Let_def segment_no_transform detect_empty_group
        positionCallback_def odom_msg_def one_beam_def stale_detector_def detector_init_def
        planner_init_def toSec_def time0_def loc0_def)

subsection \<open>The footprint\<close>

lemma row_2500_index: "i * 5000 + 2500 \<noteq> (12502504::int)"
proof
  assume e: "i * 5000 + 2500 = (12502504::int)"
  have "(i * 5000 + 2500) mod 5000 = (2500::int)"
    by simp
  then have "(12502504::int) mod 5000 = 2500"
    by (simp only: e)
  then show False
    by simp
qed

lemma map_set_row_2500:
  assumes c: "cell_of py = 2500"
  shows "map_set g px py v 12502504 = g 12502504"
  using c row_2500_index by (simp add: map_set_def Let_def MAP_SIZE_def)

lemma footprint_by_keeps:
  "footprint_by_loop 0 loc0 bx g by' 12502504 = g 12502504"
proof (induction "0::real" loc0 bx g by' rule: footprint_by_loop.induct)
  case (1 bx g by')
  have c: "cell_of 0 = 2500"
    by (simp add: cell_of_def c_round_def MAP_SIZE_def)
  show ?case
  proof (cases "by' < 45 / 100")
    case True
    with 1 show ?thesis
      by (subst footprint_by_loop.simps) (simp add: loc0_def map_set_row_2500 c)
  next
    case False
    then show ?thesis
      by (subst footprint_by_loop.simps) simp
  qed
qed

lemma footprint_bx_keeps:
  "footprint_bx_loop 0 loc0 g bx 12502504 = g 12502504"
proof (induction "0::real" loc0 g bx rule: footprint_bx_loop.induct)
  case (1 g bx)
  show ?case
  proof (cases "bx \<le> 16 / 100")
    case True
    with 1 show ?thesis
      by (subst footprint_bx_loop.simps) (simp add: footprint_by_keeps)
  next
    case False
    then show ?thesis
      by (subst footprint_bx_loop.simps) simp
  qed
qed

text \<open>
  C6. At the pose \<open>(0, 0, 0)\<close> the footprint point \<open>(- 0.01, 0.38)\<close>, rotated by the yaw
  0 and moved to the robot, lies in the cell \<open>(2500, 2504)\<close>, at the index 12502504. The
  footprint step leaves a 2 in that cell: it writes at
  \<open>(bx * cos(theta) + x, by * sin(theta) + y)\<close>, which for the yaw 0 is the row of the
  robot only.
\<close>

theorem footprint_misses_cell:
  "clear_footprint loc0 (map_init(12502504 := 2)) 12502504 = 2
   \<and> cell_of (- (1 / 100) * cos 0 - 38 / 100 * sin 0 + loc_x loc0) * MAP_SIZE
       + cell_of (- (1 / 100) * sin 0 + 38 / 100 * cos 0 + loc_y loc0) = 12502504"
proof -
  have p: "loc_pose loc0 = 0"
    by (simp add: loc0_def)
  have "clear_footprint loc0 (map_init(12502504 := 2)) 12502504 = 2"
    unfolding clear_footprint_def p by (simp only: footprint_bx_keeps) simp
  moreover have "cell_of (- (1 / 100) * cos 0 - 38 / 100 * sin 0 + loc_x loc0) * MAP_SIZE
       + cell_of (- (1 / 100) * sin 0 + 38 / 100 * cos 0 + loc_y loc0) = 12502504"
    by (simp add: loc0_def cell_of_def c_round_def MAP_RES_def MAP_SIZE_def)
  ultimately show ?thesis by simp
qed

subsection \<open>\<open>plan_path\<close> returns\<close>

text \<open>
  The tangent arc has a finite radius and a finite length, or the length NaN, so
  \<open>test_arc_d\<close> and \<open>arcToPath_d\<close> are never outside the model in \<open>plan_path\<close>.
\<close>

lemma tangent_shape:
  "(\<exists>r l. tg_radius (tangent_arc c start goal d) = Fin r
           \<and> tg_arc_len (tangent_arc c start goal d) = Fin l)
   \<or> tg_arc_len (tangent_arc c start goal d) = NaN"
proof -
  define theta where "theta = atan2 (loc_y goal - loc_y start) (loc_x goal - loc_x start)"
  define arc_ang where "arc_ang = norm_up (norm_down (2 * (theta - loc_pose start)))"
  define alpha1 where "alpha1 = (if pi < arc_ang then pi * 2 - arc_ang else arc_ang)"
  define alpha where "alpha = (if alpha1 < - pi then - pi * 2 - alpha1 else alpha1)"
  define radius0 where "radius0 = (if alpha = 0 then ddiv (d * sin ((pi - \<bar>alpha\<bar>) / 2)) 0
                     else Fin (d * sin ((pi - \<bar>alpha\<bar>) / 2) / sin alpha))"
  define radius1 where "radius1 = (if pi < \<bar>arc_ang\<bar>
                     then (if dlt (Fin 0) radius0 then Fin (min_radius c)
                           else Fin (- min_radius c))
                     else radius0)"
  have tg: "tangent_arc c start goal d =
      (let arc_len1 = dmul arc_ang radius1;
          (radius2, arc_len2) =
             (if dlt (dabs radius1) (Fin (min_radius c)) then (Fin 0, Fin (min_radius c))
              else (radius1, arc_len1));
          radius3 = dmin radius2 (Fin (max_radius c));
          radius4 = dmax radius3 (Fin (- max_radius c));
          arc_len3 = dmin arc_len2 (Fin (planner_lookahead c))
      in \<lparr>tg_alpha = alpha, tg_radius = radius4, tg_arc_len = arc_len3\<rparr>)"
    unfolding tangent_arc_def theta_def arc_ang_def alpha1_def alpha_def radius0_def radius1_def
      Let_def
    by (rule refl)
  show ?thesis
  proof (cases radius1)
    case (Fin r)
    then show ?thesis
      unfolding tg by (auto simp: Let_def dmin_def dmax_def)
  next
    case PInf
    then have "radius0 = PInf" "\<not> pi < \<bar>arc_ang\<bar>"
      by (auto simp: radius1_def split: if_splits)
    then have "alpha = 0"
      by (auto simp: radius0_def split: if_splits)
    with \<open>\<not> pi < \<bar>arc_ang\<bar>\<close> have "arc_ang = 0"
      by (auto simp: alpha_def alpha1_def split: if_splits)
    with PInf show ?thesis
      unfolding tg by (simp add: Let_def dmin_def)
  next
    case NInf
    then have "radius0 = NInf" "\<not> pi < \<bar>arc_ang\<bar>"
      by (auto simp: radius1_def split: if_splits)
    then have "alpha = 0"
      by (auto simp: radius0_def split: if_splits)
    with \<open>\<not> pi < \<bar>arc_ang\<bar>\<close> have "arc_ang = 0"
      by (auto simp: alpha_def alpha1_def split: if_splits)
    with NInf show ?thesis
      unfolding tg by (simp add: Let_def dmin_def)
  next
    case NaN
    then show ?thesis
      unfolding tg by (simp add: Let_def dmin_def)
  qed
qed

lemma plan_path_total: "\<exists>p s'. plan_path now s start goal = Some (p, s')"
proof -
  let ?d = "dist_loc start goal"
  have "\<exists>p s'. plan_forward now s0 start goal ?d = Some (p, s')" for s0
  proof -
    let ?tg = "tangent_arc (cfg s0) start goal ?d"
    from tangent_shape [of "cfg s0" start goal ?d]
    have "(\<exists>b pth. test_arc_d (map_data s0) start (tg_radius ?tg) (tg_arc_len ?tg) = Some b
             \<and> arcToPath_d (position_frame s0) start (tg_radius ?tg) (tg_arc_len ?tg) = Some pth)"
      by (elim disjE exE conjE) auto
    then obtain b pth where
      "test_arc_d (map_data s0) start (tg_radius ?tg) (tg_arc_len ?tg) = Some b"
      "arcToPath_d (position_frame s0) start (tg_radius ?tg) (tg_arc_len ?tg) = Some pth"
      by blast
    then show ?thesis
      by (cases b) (simp_all add: plan_forward_def Let_def)
  qed
  then show ?thesis
    by (simp add: plan_path_def Let_def plan_backing_def plan_cone_def split: pstate.splits)
qed

subsection \<open>The speed in the mode \<open>FORWARD\<close>\<close>

lemma no_collision_init: "\<not> test_collision map_init h"
  by (simp add: test_collision_def map_get_def map_init_def Let_def)

lemma test_arc_loop_init: "test_arc_loop map_init r theta cx cy l ds"
proof (induction map_init r theta cx cy l ds rule: test_arc_loop.induct)
  case (1 r theta cx cy l ds)
  then show ?case
    by (subst test_arc_loop.simps) (simp add: no_collision_init)
qed

lemma test_line_loop_init: "test_line_loop map_init start l ds"
proof (induction map_init start l ds rule: test_line_loop.induct)
  case (1 start l ds)
  then show ?case
    by (subst test_line_loop.simps) (simp add: no_collision_init)
qed

lemma test_arc_init: "test_arc map_init start r l"
  by (simp add: test_arc_def Let_def test_arc_loop_init test_line_loop_init)

lemma pi_ge_3: "3 \<le> pi"
  using sin_x_le_x [of "pi / 6"] by (simp add: sin_30)

lemma sqrt2_bounds: "\<not> sqrt 2 < 3 / 10" "sqrt 2 < 3 / 2"
proof -
  have "1 < sqrt 2" by simp
  then show "\<not> sqrt 2 < 3 / 10" by linarith
  have "sqrt 2 < sqrt ((3 / 2)\<^sup>2)"
    by (subst real_sqrt_less_iff) (simp add: power2_eq_square)
  then show "sqrt 2 < 3 / 2" by simp
qed

lemma dist_loc0_goal11: "dist_loc loc0 goal11 = sqrt 2"
  by (simp add: dist_loc_def hypot_def loc0_def goal11_def)

lemma tangent_goal11:
  "tangent_arc default_params loc0 goal11 (sqrt 2)
     = \<lparr>tg_alpha = pi / 2, tg_radius = Fin 1, tg_arc_len = Fin (pi / 2)\<rparr>"
proof -
  have th: "atan2 (loc_y goal11 - loc_y loc0) (loc_x goal11 - loc_x loc0) = pi / 4"
    by (simp add: atan2_def goal11_def loc0_def arctan_one)
  have n: "norm_up (norm_down (2 * (pi / 4 - loc_pose loc0))) = pi / 2"
    by (subst norm_down.simps, subst norm_up.simps) (simp add: loc0_def)
  have b: "(pi - \<bar>pi / 2\<bar>) / 2 = pi / 4"
    by simp
  have p4: "\<not> 4 < pi / 2"
    using pi_half_less_two by linarith
  show ?thesis
    unfolding tangent_arc_def Let_def th n b
    using p4 by (simp add: default_params_def sin_45 dmin_def dmax_def)
qed

lemma speed_for_fin:
  "0 < planner_lookahead c \<Longrightarrow>
   speed_for c len = Fin (min (max_speed c) (max_speed c * 2 * len / planner_lookahead c))"
  by (simp add: speed_for_def ddiv_def dmin_def min_def)


lemma test_then_path:
  "test_arc_d g start r l = Some b \<Longrightarrow> \<exists>pth. arcToPath_d frame start r l = Some pth"
  by (cases r; cases l) (auto split: if_splits)

text \<open>
  C8, as the code has it. In the mode \<open>FORWARD\<close>, away from the goal and with a positive
  \<open>planner_lookahead\<close>: when the tangent arc passes, the speed is
  \<open>max_speed * 2 * traverse_dist / planner_lookahead\<close> clamped to
  \<open>[min_speed, max_speed]\<close>, where \<open>traverse_dist = min(d, planner_lookahead)\<close> comes from
  the distance to the goal and not from the length of the arc. When a fallback arc is
  chosen, of length \<open>|best_r| * pi / 2\<close> or \<open>traverse_dist\<close> for the straight one, and
  \<open>min_speed\<close> is at most \<open>max_speed\<close> and at most
  \<open>max_speed * 2 * length / planner_lookahead\<close>, the speed is that value clamped to
  \<open>[min_speed, max_speed]\<close>.
\<close>

theorem forward_speed:
  assumes fw: "planner_state s = FORWARD"
    and stay: "\<not> (track_cones (cfg s) \<and> dist_loc start goal < cone_dist (cfg s))"
    and far: "\<not> dist_loc start goal < goal_err (cfg s)"
    and look: "0 < planner_lookahead (cfg s)"
    and res: "plan_path now s start goal = Some (p, s')"
  shows "(let c = cfg s;
              td = min (dist_loc start goal) (planner_lookahead c);
              tg = tangent_arc c start goal (dist_loc start goal);
              arcs = candidate_arcs (map_data s) c start td;
              best_r = choose_arc start goal td arcs;
              len = (if best_r = 0 then td else \<bar>best_r * pi / 2\<bar>)
          in (test_arc_d (map_data s) start (tg_radius tg) (tg_arc_len tg) = Some True \<longrightarrow>
                p_radius p = tg_radius tg
                \<and> p_speed p = Fin (max (min_speed c)
                     (min (max_speed c) (max_speed c * 2 * td / planner_lookahead c))))
           \<and> (test_arc_d (map_data s) start (tg_radius tg) (tg_arc_len tg) = Some False
                \<and> arcs \<noteq> [] \<and> min_speed c \<le> max_speed c
                \<and> min_speed c \<le> max_speed c * 2 * len / planner_lookahead c \<longrightarrow>
                p_radius p = Fin best_r
                \<and> p_speed p = Fin (max (min_speed c)
                     (min (max_speed c) (max_speed c * 2 * len / planner_lookahead c)))))"
proof -
  let ?c = "cfg s"
  let ?d = "dist_loc start goal"
  let ?td = "min ?d (planner_lookahead ?c)"
  let ?tg = "tangent_arc ?c start goal ?d"
  have pf: "plan_forward now s start goal ?d = Some (p, s')"
    using res fw stay by (auto simp: plan_path_def Let_def)
  show ?thesis
  proof (cases "test_arc_d (map_data s) start (tg_radius ?tg) (tg_arc_len ?tg)")
    case None
    then show ?thesis
      using pf far by (simp add: plan_forward_def Let_def)
  next
    case (Some b)
    from test_then_path [OF Some] obtain pth where
      pth: "arcToPath_d (position_frame s) start (tg_radius ?tg) (tg_arc_len ?tg) = Some pth"
      by blast
    show ?thesis
    proof (cases b)
      case True
      with Some pth pf far look show ?thesis
        by (auto simp: plan_forward_def Let_def speed_for_fin max_def)
    next
      case False
      with Some pf far look show ?thesis
        by (auto simp: plan_forward_def Let_def speed_for_fin max_def min_def
              split: if_splits)
    qed
  qed
qed


lemma forward_state_simps:
  "cfg forward_state = default_params" "map_data forward_state = map_init"
  "planner_state forward_state = FORWARD" "position_frame forward_state = []"
  by (simp_all add: forward_state_def planner_init_def)

lemma plan_goal11:
  "plan_path now forward_state loc0 goal11 =
     Some (\<lparr>p_speed = Fin (3 * sqrt 2 / 4), p_radius = Fin 1\<rparr>,
           clear_timeout (publish (Path (arcToPath [] loc0 1 (pi / 2))) forward_state))"
proof -
  have tc: "\<not> track_cones default_params" "goal_err default_params = 3 / 10"
    "planner_lookahead default_params = 4" "max_speed default_params = 3 / 2"
    "min_speed default_params = 1 / 10"
    by (simp_all add: default_params_def)
  have sp: "speed_for default_params (sqrt 2) = Fin (3 * sqrt 2 / 4)"
    using sqrt2_bounds by (simp add: speed_for_fin tc min_def)
  have m: "min (sqrt 2) 4 = sqrt 2"
    using sqrt2_bounds by simp
  show ?thesis
    using sqrt2_bounds
    by (simp add: plan_path_def plan_forward_def Let_def forward_state_simps tc
          dist_loc0_goal11 tangent_goal11 m sp test_arc_init)
qed

theorem forward_speed_witness:
  "planner_state forward_state = FORWARD
   \<and> \<not> (track_cones (cfg forward_state) \<and> dist_loc loc0 goal11 < cone_dist (cfg forward_state))
   \<and> \<not> dist_loc loc0 goal11 < goal_err (cfg forward_state)
   \<and> 0 < planner_lookahead (cfg forward_state)
   \<and> plan_path time0 forward_state loc0 goal11 =
        Some (\<lparr>p_speed = Fin (3 * sqrt 2 / 4), p_radius = Fin 1\<rparr>,
              clear_timeout (publish (Path (arcToPath [] loc0 1 (pi / 2))) forward_state))
   \<and> test_arc_d (map_data forward_state) loc0
        (tg_radius (tangent_arc (cfg forward_state) loc0 goal11 (dist_loc loc0 goal11)))
        (tg_arc_len (tangent_arc (cfg forward_state) loc0 goal11 (dist_loc loc0 goal11)))
       = Some True
   \<and> Fin (3 * sqrt 2 / 4) =
       Fin (max (min_speed (cfg forward_state))
              (min (max_speed (cfg forward_state))
                 (max_speed (cfg forward_state) * 2
                    * min (dist_loc loc0 goal11) (planner_lookahead (cfg forward_state))
                    / planner_lookahead (cfg forward_state))))"
proof -
  have a: "planner_state forward_state = FORWARD"
    by (simp add: forward_state_simps)
  have b: "\<not> (track_cones (cfg forward_state)
               \<and> dist_loc loc0 goal11 < cone_dist (cfg forward_state))"
    by (simp add: forward_state_simps default_params_def)
  have c: "\<not> dist_loc loc0 goal11 < goal_err (cfg forward_state)"
    using sqrt2_bounds by (simp add: forward_state_simps default_params_def dist_loc0_goal11)
  have d: "0 < planner_lookahead (cfg forward_state)"
    by (simp add: forward_state_simps default_params_def)
  have t: "test_arc_d (map_data forward_state) loc0
        (tg_radius (tangent_arc (cfg forward_state) loc0 goal11 (dist_loc loc0 goal11)))
        (tg_arc_len (tangent_arc (cfg forward_state) loc0 goal11 (dist_loc loc0 goal11)))
       = Some True"
    by (simp add: forward_state_simps dist_loc0_goal11 tangent_goal11 test_arc_init)
  note fs = forward_speed [OF a b c d plan_goal11 [of time0], unfolded Let_def]
  from fs t have "p_speed \<lparr>p_speed = Fin (3 * sqrt 2 / 4), p_radius = Fin 1\<rparr> =
       Fin (max (min_speed (cfg forward_state))
              (min (max_speed (cfg forward_state))
                 (max_speed (cfg forward_state) * 2
                    * min (dist_loc loc0 goal11) (planner_lookahead (cfg forward_state))
                    / planner_lookahead (cfg forward_state))))"
    by blast
  then have e: "Fin (3 * sqrt 2 / 4) =
       Fin (max (min_speed (cfg forward_state))
              (min (max_speed (cfg forward_state))
                 (max_speed (cfg forward_state) * 2
                    * min (dist_loc loc0 goal11) (planner_lookahead (cfg forward_state))
                    / planner_lookahead (cfg forward_state))))"
    by simp
  from a b c d t e plan_goal11 [of time0] show ?thesis
    by blast
qed

text \<open>
  C8 as claimed fails: from \<open>(0, 0, 0)\<close> to the goal \<open>(1, 1)\<close> on the empty map the
  tangent arc has the radius 1 and the length \<open>pi / 2\<close> and passes, and the speed is
  \<open>3 * sqrt 2 / 4\<close>, from the distance \<open>sqrt 2\<close> to the goal; the speed from the length
  of the arc would be more.
\<close>

theorem forward_speed_counterexample:
  "plan_path time0 forward_state loc0 goal11 =
     Some (\<lparr>p_speed = Fin (3 * sqrt 2 / 4), p_radius = Fin 1\<rparr>,
           clear_timeout (publish (Path (arcToPath [] loc0 1 (pi / 2))) forward_state))
   \<and> tangent_arc (cfg forward_state) loc0 goal11 (dist_loc loc0 goal11) =
       \<lparr>tg_alpha = pi / 2, tg_radius = Fin 1, tg_arc_len = Fin (pi / 2)\<rparr>
   \<and> 3 * sqrt 2 / 4 <
       max (min_speed (cfg forward_state))
         (min (max_speed (cfg forward_state))
            (max_speed (cfg forward_state) * 2 * (pi / 2)
               / planner_lookahead (cfg forward_state)))"
proof -
  have "3 * sqrt 2 / 4 < 3 * pi / 8"
    using sqrt2_bounds pi_ge_3 by simp
  moreover have "3 * pi / 8 < 3 / 2"
    using pi_less_4 by simp
  ultimately have "3 * sqrt 2 / 4 < max (1 / 10) (min (3 / 2) (3 / 2 * 2 * (pi / 2) / 4))"
    by (simp add: min_def max_def)
  then have sp: "3 * sqrt 2 / 4 <
       max (min_speed (cfg forward_state))
         (min (max_speed (cfg forward_state))
            (max_speed (cfg forward_state) * 2 * (pi / 2)
               / planner_lookahead (cfg forward_state)))"
    by (simp add: forward_state_simps default_params_def)
  have tg: "tangent_arc (cfg forward_state) loc0 goal11 (dist_loc loc0 goal11) =
       \<lparr>tg_alpha = pi / 2, tg_radius = Fin 1, tg_arc_len = Fin (pi / 2)\<rparr>"
    by (simp only: forward_state_simps dist_loc0_goal11 tangent_goal11)
  from sp tg plan_goal11 [of time0] show ?thesis
    by blast
qed

subsection \<open>The choice among the fallback arcs\<close>

lemma cos_taylor:
  fixes x :: real
  assumes "0 < x"
  shows "cos x \<le> 1 - x\<^sup>2 / 2 + x ^ 4 / 24" "1 - x\<^sup>2 / 2 - x ^ 4 / 24 \<le> cos x"
proof -
  from Maclaurin_cos_expansion2 [of x 4] assms obtain t where
    t: "cos x = (\<Sum>m<4. cos_coeff m * x ^ m) + cos (t + 1 / 2 * real (4::nat) * pi) / fact 4 * x ^ 4"
    by auto
  have s: "(\<Sum>m<4. cos_coeff m * x ^ m) = 1 - x\<^sup>2 / 2"
    by (simp add: eval_nat_numeral cos_coeff_Suc sin_coeff_Suc)
  have f: "fact 4 = (24::real)"
    by (simp add: eval_nat_numeral)
  have c: "cos (t + 1 / 2 * real (4::nat) * pi) = cos t"
    by simp
  have e: "cos x = 1 - x\<^sup>2 / 2 + cos t * x ^ 4 / 24"
    unfolding t s f c by simp
  have x4: "0 \<le> x ^ 4"
    by simp
  have "cos t * x ^ 4 \<le> 1 * x ^ 4"
    by (rule mult_right_mono) (simp_all)
  then show "cos x \<le> 1 - x\<^sup>2 / 2 + x ^ 4 / 24"
    unfolding e by simp
  have "- 1 * x ^ 4 \<le> cos t * x ^ 4"
    by (rule mult_right_mono) (simp_all)
  then show "1 - x\<^sup>2 / 2 - x ^ 4 / 24 \<le> cos x"
    unfolding e by simp
qed

lemma sin_taylor:
  fixes x :: real
  assumes "0 < x"
  shows "x - x ^ 3 / 6 \<le> sin x" "sin x \<le> x"
proof -
  from Maclaurin_sin_expansion3 [of 3 x] assms obtain t where
    t: "sin x = (\<Sum>m<3. sin_coeff m * x ^ m) + sin (t + 1 / 2 * real (3::nat) * pi) / fact 3 * x ^ 3"
    by auto
  have s: "(\<Sum>m<3. sin_coeff m * x ^ m) = x"
    by (simp add: eval_nat_numeral cos_coeff_Suc sin_coeff_Suc)
  have f: "fact 3 = (6::real)"
    by (simp add: eval_nat_numeral)
  have e: "sin x = x + sin (t + 1 / 2 * real (3::nat) * pi) * x ^ 3 / 6"
    unfolding t s f by simp
  have "0 \<le> x ^ 3"
    using assms by simp
  then have "- 1 * x ^ 3 \<le> sin (t + 1 / 2 * real (3::nat) * pi) * x ^ 3"
    by (intro mult_right_mono) simp_all
  then show "x - x ^ 3 / 6 \<le> sin x"
    unfolding e by simp
  show "sin x \<le> x"
    using assms sin_x_le_x by simp
qed

lemma sqrt3_bounds: "173 / 100 < sqrt 3" "sqrt 3 < 1733 / 1000"
proof -
  have "sqrt ((173 / 100)\<^sup>2) < sqrt 3"
    by (subst real_sqrt_less_iff) (simp add: power2_eq_square)
  then show "173 / 100 < sqrt 3" by simp
  have "sqrt 3 < sqrt ((1733 / 1000)\<^sup>2)"
    by (subst real_sqrt_less_iff) (simp add: power2_eq_square)
  then show "sqrt 3 < 1733 / 1000" by simp
qed

lemma arc_point_origin:
  "r \<noteq> 0 \<Longrightarrow> arc_point r (- (pi / 2)) 0 r ds =
     \<lparr>loc_x = r * sin (ds / r), loc_y = r * (1 - cos (ds / r)), loc_pose = 0\<rparr>"
  by (simp add: arc_point_def cos_diff sin_diff algebra_simps)

lemma test_arc_origin:
  "r \<noteq> 0 \<Longrightarrow> test_arc g loc0 r l = test_arc_loop g r (- (pi / 2)) 0 r l 0"
  by (simp add: test_arc_def loc0_def Let_def)

lemma arc_end_origin:
  "r \<noteq> 0 \<Longrightarrow> arc_end loc0 r l =
     \<lparr>loc_x = r * sin (l / r), loc_y = r * (1 - cos (l / r)), loc_pose = l / r - pi / 2\<rparr>"
  by (simp add: arc_end_def loc0_def Let_def cos_diff sin_diff algebra_simps)

lemma wall_free:
  assumes "0 \<le> loc_y h"
  shows "\<not> test_collision wall_map h"
proof -
  have "0 \<le> c_round (loc_y h / MAP_RES)"
    using assms by (simp add: c_round_def MAP_RES_def)
  then have j: "2500 \<le> cell_of (loc_y h)"
    by (simp add: cell_of_def MAP_SIZE_def)
  have "(i * 5000 + j) mod 5000 = j" if "0 \<le> j" "j < 5000" for i j :: int
    using that by simp
  then show ?thesis
    using j by (auto simp: test_collision_def map_get_def Let_def in_map_def wall_map_def
        MAP_SIZE_def)
qed

lemma wall_hit:
  assumes y: "loc_y h \<le> - (1 / 20)" "- 100 \<le> loc_y h"
    and x: "\<bar>loc_x h\<bar> \<le> 100"
  shows "test_collision wall_map h"
proof -
  have half: "MAP_SIZE div 2 = 2500"
    by (simp add: MAP_SIZE_def)
  have "loc_y h / MAP_RES < 0"
    using y by (simp add: MAP_RES_def)
  then have cr: "c_round (loc_y h / MAP_RES) = \<lceil>loc_y h * 10 - 1 / 2\<rceil>"
    by (simp add: c_round_def MAP_RES_def)
  have "loc_y h * 10 - 1 / 2 \<le> real_of_int (- 1)"
    using y by simp
  then have up: "\<lceil>loc_y h * 10 - 1 / 2\<rceil> \<le> - 1"
    by (simp only: ceiling_le_iff)
  have "real_of_int (- 1001) \<le> loc_y h * 10 - 1 / 2"
    using y by simp
  then have lo: "- 1001 \<le> \<lceil>loc_y h * 10 - 1 / 2\<rceil>"
    by (meson ceiling_mono ceiling_of_int order_trans le_of_int_ceiling of_int_le_iff)
  have j: "cell_of (loc_y h) < 2500" "0 \<le> cell_of (loc_y h)"
    unfolding cell_of_def cr half using up lo by linarith+
  have xs: "- 100 \<le> loc_x h" "loc_x h \<le> 100"
    using x by linarith+
  have "- 1001 \<le> c_round (loc_x h / MAP_RES) \<and> c_round (loc_x h / MAP_RES) \<le> 1001"
  proof (cases "0 \<le> loc_x h / MAP_RES")
    case True
    then have "c_round (loc_x h / MAP_RES) = \<lfloor>loc_x h * 10 + 1 / 2\<rfloor>"
      by (simp add: c_round_def MAP_RES_def)
    moreover have "\<lfloor>loc_x h * 10 + 1 / 2\<rfloor> \<le> 1001"
      using xs by (simp add: floor_le_iff)
    moreover have "0 \<le> \<lfloor>loc_x h * 10 + 1 / 2\<rfloor>"
      using True by (simp add: MAP_RES_def)
    ultimately show ?thesis by linarith
  next
    case False
    then have "c_round (loc_x h / MAP_RES) = \<lceil>loc_x h * 10 - 1 / 2\<rceil>"
      by (simp add: c_round_def MAP_RES_def)
    moreover have "\<lceil>loc_x h * 10 - 1 / 2\<rceil> \<le> 0"
      using False by (simp add: MAP_RES_def ceiling_le_iff)
    moreover have "real_of_int (- 1001) \<le> loc_x h * 10 - 1 / 2"
      using xs by simp
    then have "- 1001 \<le> \<lceil>loc_x h * 10 - 1 / 2\<rceil>"
      by (meson ceiling_mono ceiling_of_int order_trans le_of_int_ceiling of_int_le_iff)
    ultimately show ?thesis by linarith
  qed
  then have i: "0 \<le> cell_of (loc_x h)" "cell_of (loc_x h) < 5000"
    unfolding cell_of_def half by linarith+
  have "(i * 5000 + j) mod 5000 = j" if "0 \<le> j" "j < 5000" for i j :: int
    using that by simp
  then show ?thesis
    using i j by (simp add: test_collision_def map_get_def Let_def in_map_def wall_map_def
        MAP_SIZE_def)
qed


lemma arc_loop_sample:
  "test_arc_loop g r th cx cy l ds \<Longrightarrow> ds + real k * (MAP_RES / 2) < l \<Longrightarrow>
   \<not> test_collision g (arc_point r th cx cy (ds + real k * (MAP_RES / 2)))"
proof (induction k arbitrary: ds)
  case 0
  then have "ds < l" by simp
  with 0(1) show ?case
    by (subst (asm) test_arc_loop.simps) (simp split: if_splits)
next
  case (Suc k)
  have "0 \<le> real (Suc k) * (MAP_RES / 2)"
    by (simp add: MAP_RES_def)
  with Suc.prems(2) have "ds < l" by linarith
  with Suc.prems(1) have nxt: "test_arc_loop g r th cx cy l (ds + MAP_RES / 2)"
    by (subst (asm) test_arc_loop.simps) (simp split: if_splits)
  have eq: "ds + MAP_RES / 2 + real k * (MAP_RES / 2) = ds + real (Suc k) * (MAP_RES / 2)"
    by (simp add: algebra_simps)
  from Suc.IH [OF nxt] Suc.prems(2) show ?case
    unfolding eq by simp
qed

lemma right_arc_blocked:
  assumes rho: "0 < \<rho>" "\<rho> \<le> 50" and l: "1 < l"
    and bound: "1 / 20 \<le> \<rho> * ((1 / \<rho>)\<^sup>2 / 2 - (1 / \<rho>) ^ 4 / 24)"
  shows "\<not> test_arc wall_map loc0 (- \<rho>) l"
proof
  assume "test_arc wall_map loc0 (- \<rho>) l"
  then have lp: "test_arc_loop wall_map (- \<rho>) (- (pi / 2)) 0 (- \<rho>) l 0"
    using rho by (simp add: test_arc_origin)
  have "0 + real (20::nat) * (MAP_RES / 2) = 1"
    by (simp add: MAP_RES_def)
  with arc_loop_sample [OF lp, of 20] l
  have free: "\<not> test_collision wall_map (arc_point (- \<rho>) (- (pi / 2)) 0 (- \<rho>) 1)"
    by simp
  have pt: "arc_point (- \<rho>) (- (pi / 2)) 0 (- \<rho>) 1 =
      \<lparr>loc_x = \<rho> * sin (1 / \<rho>), loc_y = - (\<rho> * (1 - cos (1 / \<rho>))), loc_pose = 0\<rparr>"
    using rho by (simp add: arc_point_origin)
  have t: "0 < 1 / \<rho>"
    using rho by simp
  have "1 - cos (1 / \<rho>) \<ge> (1 / \<rho>)\<^sup>2 / 2 - (1 / \<rho>) ^ 4 / 24"
    using cos_taylor(1) [OF t] by linarith
  then have "\<rho> * ((1 / \<rho>)\<^sup>2 / 2 - (1 / \<rho>) ^ 4 / 24) \<le> \<rho> * (1 - cos (1 / \<rho>))"
    using rho by (intro mult_left_mono) simp_all
  with bound have y1: "- (\<rho> * (1 - cos (1 / \<rho>))) \<le> - (1 / 20)"
    by linarith
  have "1 - cos (1 / \<rho>) \<le> 2"
    using cos_ge_minus_one [of "1 / \<rho>"] by linarith
  then have "\<rho> * (1 - cos (1 / \<rho>)) \<le> \<rho> * 2"
    using rho by (intro mult_left_mono) simp_all
  with rho have y2: "- 100 \<le> - (\<rho> * (1 - cos (1 / \<rho>)))"
    by linarith
  have "\<bar>\<rho> * sin (1 / \<rho>)\<bar> \<le> \<rho> * 1"
    unfolding abs_mult using rho by (intro mult_mono) simp_all
  with rho have x: "\<bar>\<rho> * sin (1 / \<rho>)\<bar> \<le> 100"
    by linarith
  have "test_collision wall_map (arc_point (- \<rho>) (- (pi / 2)) 0 (- \<rho>) 1)"
    unfolding pt by (rule wall_hit) (use y1 y2 x in simp_all)
  with free show False by simp
qed

lemma left_loop_free_gen:
  "g = wall_map \<Longrightarrow> th = - (pi / 2) \<Longrightarrow> cx = 0 \<Longrightarrow> cy = r \<Longrightarrow> 0 < r \<Longrightarrow>
   test_arc_loop g r th cx cy l ds"
proof (induction g r th cx cy l ds rule: test_arc_loop.induct)
  case (1 g r th cx cy l ds)
  have "0 \<le> r * (1 - cos (ds / r))"
    using "1.prems" by (intro mult_nonneg_nonneg) simp_all
  then have "\<not> test_collision wall_map (arc_point r (- (pi / 2)) 0 r ds)"
    using "1.prems" by (intro wall_free) (simp add: arc_point_origin)
  with 1 show ?case
    by (subst test_arc_loop.simps) simp
qed

lemma left_loop_free:
  "0 < r \<Longrightarrow> test_arc_loop wall_map r (- (pi / 2)) 0 r l ds"
  by (rule left_loop_free_gen) simp_all

lemma left_arc_free: "0 < r \<Longrightarrow> test_arc wall_map loc0 r l"
  by (simp add: test_arc_origin left_loop_free)

lemma straight_loop_free_gen:
  "g = wall_map \<Longrightarrow> start = loc0 \<Longrightarrow> test_line_loop g start l ds"
proof (induction g start l ds rule: test_line_loop.induct)
  case (1 g start l ds)
  have "\<not> test_collision wall_map (line_point loc0 ds)"
    by (intro wall_free) (simp add: line_point_def loc0_def)
  with 1 show ?case
    by (subst test_line_loop.simps) simp
qed

lemma straight_loop_free: "test_line_loop wall_map loc0 l ds"
  by (rule straight_loop_free_gen) simp_all

lemma straight_free: "test_arc wall_map loc0 0 l"
  by (simp add: test_arc_def straight_loop_free)

lemma arctan_inv_sqrt3: "arctan (1 / sqrt 3) = pi / 6"
proof -
  have "arctan (tan (pi / 6)) = pi / 6"
    by (rule arctan_tan) (use pi_gt_zero in linarith)+
  then show ?thesis
    by (simp add: tan_30)
qed

lemma dist_goal_right: "dist_loc loc0 goal_right = 4"
proof -
  have "dist_loc loc0 goal_right = sqrt (4\<^sup>2)"
    by (simp add: dist_loc_def hypot_def loc0_def goal_right_def power2_eq_square)
  then show ?thesis by simp
qed

lemma tangent_goal_right:
  "tangent_arc default_params loc0 goal_right 4
     = \<lparr>tg_alpha = - (pi / 3), tg_radius = Fin (- 4), tg_arc_len = Fin 4\<rparr>"
proof -
  have "atan2 (loc_y goal_right - loc_y loc0) (loc_x goal_right - loc_x loc0)
          = arctan (- (1 / sqrt 3))"
    by (simp add: atan2_def goal_right_def loc0_def)
  then have th: "atan2 (loc_y goal_right - loc_y loc0) (loc_x goal_right - loc_x loc0)
          = - (pi / 6)"
    by (simp add: arctan_minus arctan_inv_sqrt3)
  have a0: "2 * (- (pi / 6) - loc_pose loc0) = - (pi / 3)"
    by (simp add: loc0_def)
  have "\<not> 2 * pi < - (pi / 3)"
    using pi_gt_zero by linarith
  then have nd: "norm_down (- (pi / 3)) = - (pi / 3)"
    by (subst norm_down.simps) simp
  have "\<not> - (pi / 3) < - 2 * pi"
    using pi_gt_zero by linarith
  then have nu: "norm_up (- (pi / 3)) = - (pi / 3)"
    by (subst norm_up.simps) simp
  have n: "norm_up (norm_down (2 * (- (pi / 6) - loc_pose loc0))) = - (pi / 3)"
    by (simp only: a0 nd nu)
  have b: "(pi - \<bar>- (pi / 3)\<bar>) / 2 = pi / 3"
    by simp
  have p3: "\<not> pi < - (pi / 3)" "\<not> - (pi / 3) < - pi" "- (pi / 3) \<noteq> 0" "\<not> pi < \<bar>- (pi / 3)\<bar>"
    using pi_gt_zero by linarith+
  have r0: "4 * sin (pi / 3) / sin (- (pi / 3)) = - 4"
    by (simp add: sin_60)
  have al: "- (pi / 3) * - 4 = 4 * pi / 3"
    by simp
  have m: "dmin (Fin (4 * pi / 3)) (Fin 4) = Fin 4"
    using pi_ge_3 by (auto simp: dmin_def)
  show ?thesis
    unfolding tangent_arc_def Let_def th n b
    using p3 pi_ge_3 by (auto simp: default_params_def sin_60 dmin_def dmax_def)
qed


lemma try_radius_wall:
  assumes rho: "0 < \<rho>" "\<rho> \<le> 50" and l: "1 < \<rho> * pi / 2"
    and bound: "1 / 20 \<le> \<rho> * ((1 / \<rho>)\<^sup>2 / 2 - (1 / \<rho>) ^ 4 / 24)"
    and r: "min_radius c * real_of_int i = \<rho>"
  shows "try_radius wall_map c loc0 4 arcs i = arcs @ [\<rho>]"
proof -
  have "1 < min 4 (\<rho> * pi / 2)"
    using l by simp
  from right_arc_blocked [OF rho this bound] left_arc_free [OF rho(1)] show ?thesis
    by (simp add: try_radius_def Let_def r)
qed

lemma candidates_wall:
  "candidate_arcs wall_map default_params loc0 4 = [0, 139 / 200, 139 / 100, 139 / 50, 139 / 25]"
proof -
  have m: "min_radius default_params = 139 / 200"
    by (simp add: default_params_def)
  have t1: "try_radius wall_map default_params loc0 4 arcs 1 = arcs @ [139 / 200]" for arcs
    by (rule try_radius_wall) (use pi_ge_3 in \<open>simp_all add: m power2_eq_square power4_eq_xxxx\<close>)
  have t2: "try_radius wall_map default_params loc0 4 arcs 2 = arcs @ [139 / 100]" for arcs
    by (rule try_radius_wall) (use pi_ge_3 in \<open>simp_all add: m power2_eq_square power4_eq_xxxx\<close>)
  have t4: "try_radius wall_map default_params loc0 4 arcs 4 = arcs @ [139 / 50]" for arcs
    by (rule try_radius_wall) (use pi_ge_3 in \<open>simp_all add: m power2_eq_square power4_eq_xxxx\<close>)
  have t8: "try_radius wall_map default_params loc0 4 arcs 8 = arcs @ [139 / 25]" for arcs
    by (rule try_radius_wall) (use pi_ge_3 in \<open>simp_all add: m power2_eq_square power4_eq_xxxx\<close>)
  show ?thesis
    by (simp add: candidate_arcs_def straight_free t1 t2 t4 t8)
qed

lemma tangent_blocked: "\<not> test_arc wall_map loc0 (- 4) 4"
  by (rule right_arc_blocked) (simp_all add: power2_eq_square power4_eq_xxxx)

lemma dist_goal_sq:
  "dist_loc \<lparr>loc_x = ex, loc_y = ey, loc_pose = p\<rparr> goal_right = sqrt (sq_to_goal ex ey)"
  by (simp add: dist_loc_def hypot_def goal_right_def sq_to_goal_def)

lemma score_quarter:
  assumes "0 < r" "r * pi / 2 \<le> 4"
  shows "arc_score loc0 goal_right 4 r = sqrt (sq_to_goal r r)"
proof -
  have "min 4 (r * pi / 2) = r * pi / 2"
    using assms by simp
  then show ?thesis
    using assms by (simp add: arc_score_def Let_def arc_end_origin dist_goal_sq)
qed

lemma score_long:
  assumes "0 < r" "4 \<le> r * pi / 2"
  shows "arc_score loc0 goal_right 4 r = sqrt (sq_to_goal (r * sin (4 / r)) (r * (1 - cos (4 / r))))"
proof -
  have "min 4 (r * pi / 2) = 4"
    using assms by simp
  then show ?thesis
    using assms by (simp add: arc_score_def Let_def arc_end_origin dist_goal_sq)
qed

lemma score_straight: "arc_score loc0 goal_right 4 0 = 4"
proof -
  have "arc_score loc0 goal_right 4 0 = sqrt (4\<^sup>2)"
    by (simp add: arc_score_def Let_def arc_end_def loc0_def dist_loc_def hypot_def
          goal_right_def power2_eq_square)
  then show ?thesis by simp
qed

lemma sq1: "sq_to_goal (139 / 200) (139 / 200) < 14937 / 1000"
  "14928 / 1000 < sq_to_goal (139 / 200) (139 / 200)"
  using sqrt3_bounds by (simp_all add: sq_to_goal_def algebra_simps)

lemma sq2: "15 < sq_to_goal (139 / 100) (139 / 100)"
  using sqrt3_bounds by (simp_all add: sq_to_goal_def algebra_simps)


lemma sq_lower: "0 \<le> a \<Longrightarrow> a \<le> ey + 2 \<Longrightarrow> a * a \<le> sq_to_goal ex ey"
proof -
  assume a: "0 \<le> a" "a \<le> ey + 2"
  then have "a * a \<le> (ey + 2) * (ey + 2)"
    by (intro mult_mono) simp_all
  moreover have "0 \<le> (ex - 2 * sqrt 3) * (ex - 2 * sqrt 3)"
    by simp
  ultimately show ?thesis
    unfolding sq_to_goal_def by linarith
qed

lemma sq_upper:
  assumes "\<bar>ex - 2 * sqrt 3\<bar> \<le> a" "\<bar>ey + 2\<bar> \<le> b"
  shows "sq_to_goal ex ey \<le> a * a + b * b"
proof -
  have "\<bar>ex - 2 * sqrt 3\<bar> * \<bar>ex - 2 * sqrt 3\<bar> \<le> a * a"
    using assms(1) by (intro mult_mono) simp_all
  moreover have "\<bar>ey + 2\<bar> * \<bar>ey + 2\<bar> \<le> b * b"
    using assms(2) by (intro mult_mono) simp_all
  ultimately show ?thesis
    unfolding sq_to_goal_def by (simp add: abs_mult_self_eq)
qed

lemma end4: "219 / 50 \<le> 139 / 50 * (1 - cos (4 / (139 / 50))) + (2::real)"
proof -
  have t: "(0::real) < 200 / 139" by simp
  have "cos (200 / 139) \<le> 1 - (200 / 139)\<^sup>2 / 2 + (200 / 139) ^ 4 / (24::real)"
    by (rule cos_taylor(1) [OF t])
  also have "\<dots> \<le> 1436 / 10000"
    by (simp add: power2_eq_square power4_eq_xxxx)
  finally have "cos ((200::real) / 139) \<le> 1436 / 10000" .
  then show ?thesis by simp
qed

lemma end8:
  "139 / 25 * (1 - cos (4 / (139 / 25))) \<le> (151::real) / 100"
  "(137::real) / 100 \<le> 139 / 25 * (1 - cos (4 / (139 / 25)))"
  "(365::real) / 100 \<le> 139 / 25 * sin (4 / (139 / 25))"
  "139 / 25 * sin (4 / (139 / 25)) \<le> (4::real)"
proof -
  have t: "(0::real) < 100 / 139" by simp
  have "1 - (100 / 139)\<^sup>2 / 2 - (100 / 139) ^ 4 / 24 \<le> cos ((100::real) / 139)"
    by (rule cos_taylor(2) [OF t])
  moreover have "(73::real) / 100 \<le> 1 - (100 / 139)\<^sup>2 / 2 - (100 / 139) ^ 4 / 24"
    by (simp add: power2_eq_square power4_eq_xxxx)
  ultimately have "73 / 100 \<le> cos ((100::real) / 139)" by linarith
  then show "139 / 25 * (1 - cos (4 / (139 / 25))) \<le> (151::real) / 100" by simp
  have "cos ((100::real) / 139) \<le> 1 - (100 / 139)\<^sup>2 / 2 + (100 / 139) ^ 4 / 24"
    by (rule cos_taylor(1) [OF t])
  also have "\<dots> \<le> 753 / 1000"
    by (simp add: power2_eq_square power4_eq_xxxx)
  finally show "(137::real) / 100 \<le> 139 / 25 * (1 - cos (4 / (139 / 25)))" by simp
  have "100 / 139 - (100 / 139) ^ 3 / 6 \<le> sin ((100::real) / 139)"
    by (rule sin_taylor(1) [OF t])
  moreover have "(657::real) / 1000 \<le> 100 / 139 - (100 / 139) ^ 3 / 6"
    by (simp add: power3_eq_cube)
  ultimately have "657 / 1000 \<le> sin ((100::real) / 139)" by linarith
  then show "(365::real) / 100 \<le> 139 / 25 * sin (4 / (139 / 25))" by simp
  have "sin ((100::real) / 139) \<le> 100 / 139"
    by (rule sin_taylor(2) [OF t])
  then show "139 / 25 * sin (4 / (139 / 25)) \<le> (4::real)" by simp
qed

lemma sq4: "19 < sq_to_goal (139 / 50 * sin (4 / (139 / 50))) (139 / 50 * (1 - cos (4 / (139 / 50))))"
proof -
  have "219 / 50 * (219 / 50) \<le>
      sq_to_goal (139 / 50 * sin (4 / (139 / 50))) (139 / 50 * (1 - cos (4 / (139 / 50))))"
    by (rule sq_lower [OF _ end4]) simp
  then show ?thesis by simp
qed

lemma sq8:
  "sq_to_goal (139 / 25 * sin (4 / (139 / 25))) (139 / 25 * (1 - cos (4 / (139 / 25)))) < 13"
  "11 < sq_to_goal (139 / 25 * sin (4 / (139 / 25))) (139 / 25 * (1 - cos (4 / (139 / 25))))"
proof -
  have a: "\<bar>139 / 25 * sin (4 / (139 / 25)) - 2 * sqrt 3\<bar> \<le> 54 / 100"
    using end8(3,4) sqrt3_bounds by linarith
  have b: "\<bar>139 / 25 * (1 - cos (4 / (139 / 25))) + 2\<bar> \<le> (351::real) / 100"
    using end8(1,2) by linarith
  from sq_upper [OF a b]
  show "sq_to_goal (139 / 25 * sin (4 / (139 / 25))) (139 / 25 * (1 - cos (4 / (139 / 25)))) < 13"
    by simp
  have c: "(337::real) / 100 \<le> 139 / 25 * (1 - cos (4 / (139 / 25))) + 2"
    using end8(2) by linarith
  have "337 / 100 * (337 / 100) \<le>
      sq_to_goal (139 / 25 * sin (4 / (139 / 25))) (139 / 25 * (1 - cos (4 / (139 / 25))))"
    by (rule sq_lower [OF _ c]) simp
  then show "11 < sq_to_goal (139 / 25 * sin (4 / (139 / 25))) (139 / 25 * (1 - cos (4 / (139 / 25))))"
    by simp
qed

lemma scores:
  "arc_score loc0 goal_right 4 (139 / 200) = sqrt (sq_to_goal (139 / 200) (139 / 200))"
  "arc_score loc0 goal_right 4 (139 / 100) = sqrt (sq_to_goal (139 / 100) (139 / 100))"
  "arc_score loc0 goal_right 4 (139 / 50)
     = sqrt (sq_to_goal (139 / 50 * sin (4 / (139 / 50))) (139 / 50 * (1 - cos (4 / (139 / 50)))))"
  "arc_score loc0 goal_right 4 (139 / 25)
     = sqrt (sq_to_goal (139 / 25 * sin (4 / (139 / 25))) (139 / 25 * (1 - cos (4 / (139 / 25)))))"
proof -
  show "arc_score loc0 goal_right 4 (139 / 200) = sqrt (sq_to_goal (139 / 200) (139 / 200))"
    by (rule score_quarter) (use pi_less_4 in simp_all)
  show "arc_score loc0 goal_right 4 (139 / 100) = sqrt (sq_to_goal (139 / 100) (139 / 100))"
    by (rule score_quarter) (use pi_less_4 in simp_all)
  show "arc_score loc0 goal_right 4 (139 / 50)
     = sqrt (sq_to_goal (139 / 50 * sin (4 / (139 / 50))) (139 / 50 * (1 - cos (4 / (139 / 50)))))"
    by (rule score_long) (use pi_ge_3 in simp_all)
  show "arc_score loc0 goal_right 4 (139 / 25)
     = sqrt (sq_to_goal (139 / 25 * sin (4 / (139 / 25))) (139 / 25 * (1 - cos (4 / (139 / 25)))))"
    by (rule score_long) (use pi_ge_3 in simp_all)
qed

lemma score_order:
  "arc_score loc0 goal_right 4 (139 / 200) < 4"
  "\<not> arc_score loc0 goal_right 4 (139 / 100) < arc_score loc0 goal_right 4 (139 / 200)"
  "\<not> arc_score loc0 goal_right 4 (139 / 50) < arc_score loc0 goal_right 4 (139 / 200)"
  "arc_score loc0 goal_right 4 (139 / 25) < arc_score loc0 goal_right 4 (139 / 200)"
proof -
  have "sqrt (sq_to_goal (139 / 200) (139 / 200)) < sqrt (4\<^sup>2)"
    by (subst real_sqrt_less_iff) (use sq1 in simp)
  then show "arc_score loc0 goal_right 4 (139 / 200) < 4"
    by (simp add: scores)
  show "\<not> arc_score loc0 goal_right 4 (139 / 100) < arc_score loc0 goal_right 4 (139 / 200)"
    unfolding scores real_sqrt_less_iff using sq1 sq2 by linarith
  show "\<not> arc_score loc0 goal_right 4 (139 / 50) < arc_score loc0 goal_right 4 (139 / 200)"
    unfolding scores real_sqrt_less_iff using sq1 sq4 by linarith
  show "arc_score loc0 goal_right 4 (139 / 25) < arc_score loc0 goal_right 4 (139 / 200)"
    unfolding scores real_sqrt_less_iff using sq1 sq8 by linarith
qed

lemma choose_wall:
  "choose_arc loc0 goal_right 4 [0, 139 / 200, 139 / 100, 139 / 50, 139 / 25] = 139 / 25"
  using score_order by (simp add: choose_arc_def choose_step_def Let_def score_straight)


lemma wall_state_simps:
  "cfg wall_state = default_params" "map_data wall_state = wall_map"
  "planner_state wall_state = FORWARD" "position_frame wall_state = []"
  by (simp_all add: wall_state_def planner_init_def)

lemma plan_wall:
  "plan_path now wall_state loc0 goal_right =
     Some (\<lparr>p_speed = Fin (3 / 2), p_radius = Fin (139 / 25)\<rparr>,
           clear_timeout (publish (Path (arcToPath [] loc0 (139 / 25) 4)) wall_state))"
proof -
  have tc: "\<not> track_cones default_params" "goal_err default_params = 3 / 10"
    "planner_lookahead default_params = 4" "max_speed default_params = 3 / 2"
    "min_speed default_params = 1 / 10"
    by (simp_all add: default_params_def)
  have len: "\<bar>139 / 25 * pi / 2\<bar> = 139 / 25 * pi / 2"
    by simp
  have m: "min 4 (139 * pi / 50) = 4"
    using pi_ge_3 by simp
  have sp: "speed_for default_params (139 * pi / 50) = Fin (3 / 2)"
    using pi_ge_3 by (simp add: speed_for_fin tc min_def)
  show ?thesis
    by (simp add: plan_path_def plan_forward_def Let_def wall_state_simps tc dist_goal_right
          tangent_goal_right tangent_blocked candidates_wall choose_wall len m sp)
qed

lemma spec_score_left:
  "0 < r \<Longrightarrow> spec_arc_score start goal td r = arc_score start goal td r"
  by (simp add: spec_arc_score_def arc_score_def)

lemma spec_score_straight: "spec_arc_score loc0 goal_right 4 0 = sqrt (sq_to_goal 4 0)"
  by (simp add: spec_arc_score_def arc_end_def loc0_def dist_goal_sq)

lemma sq0: "sq_to_goal 4 0 < 5"
  using sqrt3_bounds by (simp add: sq_to_goal_def algebra_simps)

text \<open>
  C4. On the map with the wall to the right, from \<open>(0, 0, 0)\<close> to the goal 4 m away and
  30 degrees to the right, the tangent arc is blocked and the radii that pass are the
  straight line and the four arcs to the left. \<open>plan_path\<close> returns the widest arc to the
  left, of radius 5.56. With the scores that the specification words, the straight line
  ends nearer to the goal than each of the four arcs: the code scores the straight line by
  the arc of length \<open>min(traverse_dist, 0 * pi / 2) = 0\<close>, which ends at the start.
\<close>

theorem fallback_choice_diverges:
  "candidate_arcs wall_map default_params loc0 4
     = [0, 139 / 200, 139 / 100, 139 / 50, 139 / 25]
   \<and> plan_path time0 wall_state loc0 goal_right =
       Some (\<lparr>p_speed = Fin (3 / 2), p_radius = Fin (139 / 25)\<rparr>,
             clear_timeout (publish (Path (arcToPath [] loc0 (139 / 25) 4)) wall_state))
   \<and> spec_arc_score loc0 goal_right 4 0 < spec_arc_score loc0 goal_right 4 (139 / 200)
   \<and> spec_arc_score loc0 goal_right 4 0 < spec_arc_score loc0 goal_right 4 (139 / 100)
   \<and> spec_arc_score loc0 goal_right 4 0 < spec_arc_score loc0 goal_right 4 (139 / 50)
   \<and> spec_arc_score loc0 goal_right 4 0 < spec_arc_score loc0 goal_right 4 (139 / 25)"
proof -
  have a: "spec_arc_score loc0 goal_right 4 0 < spec_arc_score loc0 goal_right 4 (139 / 200)"
    unfolding spec_score_straight
    by (subst spec_score_left, simp, unfold scores real_sqrt_less_iff) (use sq0 sq1 in linarith)
  have b: "spec_arc_score loc0 goal_right 4 0 < spec_arc_score loc0 goal_right 4 (139 / 100)"
    unfolding spec_score_straight
    by (subst spec_score_left, simp, unfold scores real_sqrt_less_iff) (use sq0 sq2 in linarith)
  have c: "spec_arc_score loc0 goal_right 4 0 < spec_arc_score loc0 goal_right 4 (139 / 50)"
    unfolding spec_score_straight
    by (subst spec_score_left, simp, unfold scores real_sqrt_less_iff) (use sq0 sq4 in linarith)
  have d: "spec_arc_score loc0 goal_right 4 0 < spec_arc_score loc0 goal_right 4 (139 / 25)"
    unfolding spec_score_straight
    by (subst spec_score_left, simp, unfold scores real_sqrt_less_iff) (use sq0 sq8 in linarith)
  from a b c d candidates_wall plan_wall [of time0] show ?thesis
    by blast
qed

end
